theory Spec2Isabelle
  imports
    Main
    "HOL-Library.Char_ord"
    "HOL-Library.List_Lexorder"
    "HOL-Library.Sublist"
    "HOL-Library.Multiset"
    "HOL-Library.AList"
begin

section \<open>The Kotlin code generator of sqlc: model construction\<close>

text \<open>
  This theory embeds \<^verbatim>\<open>internal/codegen/kotlin/gen.go\<close>: the construction of enums, data
  classes and query descriptors from a code generation request. Go strings are byte
  strings (\<^typ>\<open>string\<close>); comparison of strings is the lexicographic order on bytes.
  A Go struct is a record whose fields carry a short prefix, because several structs of the
  source share field names (\<^verbatim>\<open>Name\<close>, \<^verbatim>\<open>Comment\<close>). A pointer to a struct that may be
  \<^verbatim>\<open>nil\<close> is an option; the pointers \<^verbatim>\<open>Parameter.Column\<close> and \<^verbatim>\<open>Query.Columns[i]\<close> are
  dereferenced by the source without a check and are taken to be set, as the compiler that
  builds the request sets them.
\<close>

subsection \<open>The request (package plugin)\<close>

record Identifier =
  id_Catalog :: string
  id_Schema :: string
  id_Name :: string

record Column =
  col_Name :: string
  col_NotNull :: bool
  col_IsArray :: bool
  col_Comment :: string
  col_Length :: int
  col_Table :: "Identifier option"
  col_Type :: "Identifier option"

record Parameter =
  par_Number :: int
  par_Column :: Column

record plugin_Query =
  pq_Text :: string
  pq_Name :: string
  pq_Cmd :: string
  pq_Columns :: "Column list"
  pq_Params :: "Parameter list"
  pq_Comments :: "string list"
  pq_Filename :: string

record plugin_Enum =
  pe_Name :: string
  pe_Vals :: "string list"
  pe_Comment :: string

record plugin_Table =
  tbl_Rel :: Identifier
  tbl_Columns :: "Column list"
  tbl_Comment :: string

record plugin_Schema =
  sch_Name :: string
  sch_Tables :: "plugin_Table list"
  sch_Enums :: "plugin_Enum list"

record plugin_Catalog =
  cat_DefaultSchema :: string
  cat_Schemas :: "plugin_Schema list"

record KotlinCode =
  EmitExactTableNames :: bool
  InflectionExcludeTableNames :: "string list"
  Package :: string

text \<open>\<^verbatim>\<open>Settings.Rename\<close> is a Go map; reading a missing key gives the empty string.\<close>

record Settings =
  set_Engine :: string
  set_Rename :: "string \<rightharpoonup> string"
  set_Kotlin :: KotlinCode

record CodeGenRequest =
  req_Settings :: Settings
  req_Catalog :: plugin_Catalog
  req_Queries :: "plugin_Query list"
  req_SqlcVersion :: string

subsection \<open>The descriptors built by the generator\<close>

record Constant =
  const_Name :: string
  const_Type :: string
  const_Value :: string

record Enum =
  enum_Name :: string
  enum_Comment :: string
  enum_Constants :: "Constant list"

record ktType =
  kt_Name :: string
  kt_IsEnum :: bool
  kt_IsArray :: bool
  kt_IsNull :: bool
  kt_DataType :: string
  kt_Engine :: string

record Field =
  fld_Name :: string
  fld_Type :: ktType
  fld_Comment :: string

record Struct =
  st_Table :: Identifier
  st_Name :: string
  st_Fields :: "Field list"
  st_JDBCParamBindings :: "Field list"
  st_Comment :: string

record QueryValue =
  qv_Emit :: bool
  qv_Name :: string
  qv_Struct :: "Struct option"
  qv_Typ :: ktType
  qv_JDBCParamBindCount :: int

record Params =
  par_Struct :: Struct

record Query =
  ClassName :: string
  Cmd :: string
  Comments :: "string list"
  MethodName :: string
  FieldName :: string
  ConstantName :: string
  SQL :: string
  SourceName :: string
  Ret :: QueryValue
  Arg :: Params

record ktTmplCtx =
  tc_Q :: string
  tc_Package :: string
  tc_Enums :: "Enum list"
  tc_DataClasses :: "Struct list"
  tc_Queries :: "Query list"
  tc_Settings :: Settings
  tc_SqlcVersion :: string
  tc_SourceName :: string
  tc_EmitJSONTags :: bool
  tc_EmitPreparedQueries :: bool
  tc_EmitInterface :: bool

record plugin_File =
  file_Name :: string
  file_Contents :: string

text \<open>The zero values of the Go structs that the source compares with or leaves unset.\<close>

definition zero_Identifier :: Identifier where
  "zero_Identifier = \<lparr>id_Catalog = [], id_Schema = [], id_Name = []\<rparr>"

definition zero_ktType :: ktType where
  "zero_ktType =
     \<lparr>kt_Name = [], kt_IsEnum = False, kt_IsArray = False, kt_IsNull = False,
      kt_DataType = [], kt_Engine = []\<rparr>"

definition zero_QueryValue :: QueryValue where
  "zero_QueryValue =
     \<lparr>qv_Emit = False, qv_Name = [], qv_Struct = None, qv_Typ = zero_ktType,
      qv_JDBCParamBindCount = 0\<rparr>"

subsection \<open>Collaborators outside gen.go\<close>

text \<open>
  gen.go calls functions that live in other files: the helpers of package \<^verbatim>\<open>sdk\<close>, the
  singularisation of package \<^verbatim>\<open>inflection\<close>, the per-engine type tables
  \<^verbatim>\<open>mysqlType\<close> and \<^verbatim>\<open>postgresType\<close>, the constant \<^verbatim>\<open>metadata.CmdCopyFrom\<close>, the rendering
  of the three templates (package \<^verbatim>\<open>text/template\<close> together with the importer), and the
  Unicode-aware functions \<^verbatim>\<open>strings.Title\<close>, \<^verbatim>\<open>strings.ToLower\<close> and
  \<^verbatim>\<open>strings.TrimSpace\<close>. They are parameters of the model: every definition below takes
  them in a record, and every theorem holds for all of them unless it says otherwise.
  Rendering a template can fail; the failure is the left summand.
\<close>

datatype template = ktModelsTmpl | ktSqlTmpl | ktIfaceTmpl

record deps =
  sdk_LowerTitle :: "string \<Rightarrow> string"
  sdk_DataType :: "Identifier option \<Rightarrow> string"
  sdk_SameTableName :: "Identifier option \<Rightarrow> Identifier \<Rightarrow> string \<Rightarrow> bool"
  inflection_Singular :: "string \<Rightarrow> string list \<Rightarrow> string"
  mysqlType :: "CodeGenRequest \<Rightarrow> Column \<Rightarrow> string \<times> bool"
  postgresType :: "CodeGenRequest \<Rightarrow> Column \<Rightarrow> string \<times> bool"
  metadata_CmdCopyFrom :: string
  strings_Title :: "string \<Rightarrow> string"
  strings_ToLower :: "string \<Rightarrow> string"
  strings_TrimSpace :: "string \<Rightarrow> string"
  template_Execute :: "template \<Rightarrow> ktTmplCtx \<Rightarrow> string + string"

subsection \<open>Strings\<close>

text \<open>The character class \<^verbatim>\<open>[a-zA-Z0-9_]\<close>, the complement of \<^verbatim>\<open>ktIdentPattern\<close>'s class.\<close>

definition isIdentChar :: "char \<Rightarrow> bool" where
  "isIdentChar c =
     ((CHR ''a'' \<le> c \<and> c \<le> CHR ''z'') \<or> (CHR ''A'' \<le> c \<and> c \<le> CHR ''Z'') \<or>
      (CHR ''0'' \<le> c \<and> c \<le> CHR ''9'') \<or> c = CHR ''_'')"

text \<open>
  \<^verbatim>\<open>strings.Replace(s, old, new, -1)\<close> for a non-empty \<^verbatim>\<open>old\<close>: the occurrences of
  \<^verbatim>\<open>old\<close> are replaced from left to right, without overlap. (The source only passes the
  one-byte patterns \<^verbatim>\<open>-\<close>, \<^verbatim>\<open>:\<close> and \<^verbatim>\<open>/\<close>; Go's treatment of an empty pattern is not
  part of the model, which leaves the string as it is then.)
\<close>

fun strings_Replace :: "string \<Rightarrow> string \<Rightarrow> string \<Rightarrow> string" where
  "strings_Replace [] old new = []"
| "strings_Replace (c # cs) old new =
     (if old \<noteq> [] \<and> prefix old (c # cs)
      then new @ strings_Replace (drop (length old) (c # cs)) old new
      else c # strings_Replace cs old new)"

text \<open>
  \<^verbatim>\<open>ktIdentPattern.ReplaceAllString(s, repl)\<close> for the pattern \<^verbatim>\<open>[^a-zA-Z0-9_]+\<close>: every
  maximal run of bytes outside the class is one match and is replaced by \<^verbatim>\<open>repl\<close>. A
  byte of a multi-byte UTF-8 sequence is outside the class, as the rune it belongs to is.
\<close>

function ktIdentPattern_ReplaceAllString :: "string \<Rightarrow> string \<Rightarrow> string" where
  "ktIdentPattern_ReplaceAllString [] repl = []"
| "ktIdentPattern_ReplaceAllString (c # cs) repl =
     (if isIdentChar c then c # ktIdentPattern_ReplaceAllString cs repl
      else repl @ ktIdentPattern_ReplaceAllString (dropWhile (\<lambda>d. \<not> isIdentChar d) cs) repl)"
  by pat_completeness auto
termination
  by (relation "measure (\<lambda>(s, repl). length s)")
     (auto simp: length_dropWhile_le less_Suc_eq_le)

text \<open>
  \<^verbatim>\<open>strings.ToUpper\<close> on ASCII text: the letters a to z move to A to Z, every other byte
  stays. gen.go applies it to the output of \<^verbatim>\<open>ktIdentPattern\<close> only, which is ASCII.
\<close>

definition toUpperByte :: "char \<Rightarrow> char" where
  "toUpperByte c =
     (case map_of (zip ''abcdefghijklmnopqrstuvwxyz'' ''ABCDEFGHIJKLMNOPQRSTUVWXYZ'') c of
        None \<Rightarrow> c
      | Some u \<Rightarrow> u)"

definition strings_ToUpper :: "string \<Rightarrow> string" where
  "strings_ToUpper s = map toUpperByte s"

text \<open>
  \<^verbatim>\<open>strings.Split(s, sep)\<close> for a one-byte separator: the pieces between the separators,
  at least one piece, empty pieces kept.
\<close>

fun strings_Split :: "string \<Rightarrow> char \<Rightarrow> string list" where
  "strings_Split [] sep = [[]]"
| "strings_Split (c # cs) sep =
     (if c = sep then [] # strings_Split cs sep
      else (case strings_Split cs sep of
              [] \<Rightarrow> [[c]]
            | w # ws \<Rightarrow> (c # w) # ws))"

text \<open>The verb \<^verbatim>\<open>%d\<close> of \<^verbatim>\<open>fmt.Sprintf\<close>: an integer in decimal, with a minus sign.\<close>

definition digitChar :: "nat \<Rightarrow> char" where
  "digitChar d = ''0123456789'' ! d"

fun natToDec :: "nat \<Rightarrow> string" where
  "natToDec n = (if n < 10 then [digitChar n] else natToDec (n div 10) @ [digitChar (n mod 10)])"

declare natToDec.simps [simp del]

definition fmt_d :: "int \<Rightarrow> string" where
  "fmt_d i = (if i < 0 then CHR ''-'' # natToDec (nat (- i)) else natToDec (nat i))"

subsection \<open>Enums\<close>

definition ktEnumValueName :: "string \<Rightarrow> string" where
  "ktEnumValueName v =
     (let id1 = strings_Replace v ''-'' ''_'';
          id2 = strings_Replace id1 '':'' ''_'';
          id3 = strings_Replace id2 ''/'' ''_'';
          id4 = ktIdentPattern_ReplaceAllString id3 ''''
      in strings_ToUpper id4)"

definition dataClassName :: "deps \<Rightarrow> string \<Rightarrow> Settings \<Rightarrow> string" where
  "dataClassName x name settings =
     (case set_Rename settings name of
        Some rename \<Rightarrow>
          if rename \<noteq> [] then rename
          else concat (map (strings_Title x) (strings_Split name (CHR ''_'')))
      | None \<Rightarrow> concat (map (strings_Title x) (strings_Split name (CHR ''_''))))"

definition memberName :: "deps \<Rightarrow> string \<Rightarrow> Settings \<Rightarrow> string" where
  "memberName x name settings = sdk_LowerTitle x (dataClassName x name settings)"

text \<open>
  \<^verbatim>\<open>sort.Slice(xs, func(i, j) { return xs[i].Name < xs[j].Name })\<close>: the slice sorted by
  the key. The model is the insertion sort of the library (\<^const>\<open>sort_key\<close>), which keeps
  the order of elements with equal keys; Go makes no promise on the order of such elements.
\<close>

definition sort_Slice :: "('a \<Rightarrow> string) \<Rightarrow> 'a list \<Rightarrow> 'a list" where
  "sort_Slice key xs = sort_key key xs"

text \<open>The body of the loop over the enums of one schema.\<close>

definition buildEnum :: "deps \<Rightarrow> CodeGenRequest \<Rightarrow> plugin_Schema \<Rightarrow> plugin_Enum \<Rightarrow> Enum" where
  "buildEnum x req schema enum =
     (let enumName =
            (if sch_Name schema = cat_DefaultSchema (req_Catalog req) then pe_Name enum
             else sch_Name schema @ ''_'' @ pe_Name enum);
          ename = dataClassName x enumName (req_Settings req)
      in \<lparr>enum_Name = ename,
          enum_Comment = pe_Comment enum,
          enum_Constants =
            map (\<lambda>v. \<lparr>const_Name = ktEnumValueName v, const_Type = ename, const_Value = v\<rparr>)
              (pe_Vals enum)\<rparr>)"

definition isSystemSchema :: "plugin_Schema \<Rightarrow> bool" where
  "isSystemSchema schema =
     (sch_Name schema = ''pg_catalog'' \<or> sch_Name schema = ''information_schema'')"

definition buildEnums :: "deps \<Rightarrow> CodeGenRequest \<Rightarrow> Enum list" where
  "buildEnums x req =
     (let enums =
            concat (map (\<lambda>schema.
                       if isSystemSchema schema then []
                       else map (buildEnum x req schema) (sch_Enums schema))
                    (cat_Schemas (req_Catalog req)))
      in if length enums > 0 then sort_Slice enum_Name enums else enums)"

subsection \<open>The specification of enum identifiers\<close>

text \<open>
  The description of the derived identifier, character by character: a separator
  (\<^verbatim>\<open>-\<close>, \<^verbatim>\<open>:\<close>, \<^verbatim>\<open>/\<close>) becomes an underscore, a character outside
  \<^verbatim>\<open>[A-Za-z0-9_]\<close> is deleted, and what is left is put in upper case.
\<close>

definition separatorToUnderscore :: "char \<Rightarrow> char" where
  "separatorToUnderscore c =
     (if c = CHR ''-'' \<or> c = CHR '':'' \<or> c = CHR ''/'' then CHR ''_'' else c)"

definition enumIdentifier_spec :: "string \<Rightarrow> string" where
  "enumIdentifier_spec v = map toUpperByte (filter isIdentChar (map separatorToUnderscore v))"

subsection \<open>Type resolution\<close>

definition ktType_String :: "ktType \<Rightarrow> string" where
  "ktType_String t =
     (if kt_IsArray t then ''List<'' @ kt_Name t @ ''>''
      else if kt_IsNull t then kt_Name t @ ''?''
      else kt_Name t)"

definition ktInnerType :: "deps \<Rightarrow> CodeGenRequest \<Rightarrow> Column \<Rightarrow> string \<times> bool" where
  "ktInnerType x req col =
     (if set_Engine (req_Settings req) = ''mysql'' then mysqlType x req col
      else if set_Engine (req_Settings req) = ''postgresql'' then postgresType x req col
      else (''Any'', False))"

definition makeType :: "deps \<Rightarrow> CodeGenRequest \<Rightarrow> Column \<Rightarrow> ktType" where
  "makeType x req col =
     (case ktInnerType x req col of
        (typ, isEnum) \<Rightarrow>
          \<lparr>kt_Name = typ,
           kt_IsEnum = isEnum,
           kt_IsArray = col_IsArray col,
           kt_IsNull = (\<not> col_NotNull col),
           kt_DataType = sdk_DataType x (col_Type col),
           kt_Engine = set_Engine (req_Settings req)\<rparr>)"

subsection \<open>Return values\<close>

text \<open>
  \<^verbatim>\<open>QueryValue.Type\<close> panics when the value has neither a type nor a struct; the panic
  is the left summand, with its message.
\<close>

definition QueryValue_EmitStruct :: "QueryValue \<Rightarrow> bool" where
  "QueryValue_EmitStruct v = qv_Emit v"

definition QueryValue_IsStruct :: "QueryValue \<Rightarrow> bool" where
  "QueryValue_IsStruct v = (qv_Struct v \<noteq> None)"

definition QueryValue_isEmpty :: "QueryValue \<Rightarrow> bool" where
  "QueryValue_isEmpty v = (qv_Typ v = zero_ktType \<and> qv_Name v = [] \<and> qv_Struct v = None)"

definition QueryValue_Type :: "QueryValue \<Rightarrow> string + string" where
  "QueryValue_Type v =
     (if qv_Typ v \<noteq> zero_ktType then Inr (ktType_String (qv_Typ v))
      else (case qv_Struct v of
              Some s \<Rightarrow> Inr (st_Name s)
            | None \<Rightarrow> Inl (''no type for QueryValue: '' @ qv_Name v)))"

subsection \<open>Data classes of tables\<close>

text \<open>The body of the loop over the tables of one schema.\<close>

definition buildDataClass ::
  "deps \<Rightarrow> CodeGenRequest \<Rightarrow> plugin_Schema \<Rightarrow> plugin_Table \<Rightarrow> Struct" where
  "buildDataClass x req schema table =
     (let tableName =
            (if sch_Name schema = cat_DefaultSchema (req_Catalog req) then id_Name (tbl_Rel table)
             else sch_Name schema @ ''_'' @ id_Name (tbl_Rel table));
          structName0 = dataClassName x tableName (req_Settings req);
          structName =
            (if \<not> EmitExactTableNames (set_Kotlin (req_Settings req))
             then inflection_Singular x structName0
                    (InflectionExcludeTableNames (set_Kotlin (req_Settings req)))
             else structName0)
      in \<lparr>st_Table =
            \<lparr>id_Catalog = [], id_Schema = sch_Name schema, id_Name = id_Name (tbl_Rel table)\<rparr>,
          st_Name = structName,
          st_Fields =
            map (\<lambda>column.
                   \<lparr>fld_Name = memberName x (col_Name column) (req_Settings req),
                    fld_Type = makeType x req column,
                    fld_Comment = col_Comment column\<rparr>)
              (tbl_Columns table),
          st_JDBCParamBindings = [],
          st_Comment = tbl_Comment table\<rparr>)"

definition buildDataClasses :: "deps \<Rightarrow> CodeGenRequest \<Rightarrow> Struct list" where
  "buildDataClasses x req =
     (let structs =
            concat (map (\<lambda>schema.
                       if isSystemSchema schema then []
                       else map (buildDataClass x req schema) (sch_Tables schema))
                    (cat_Schemas (req_Catalog req)))
      in if length structs > 0 then sort_Slice st_Name structs else structs)"

subsection \<open>Structs of query parameters and of result rows\<close>

record goColumn =
  gc_id :: int
  gc_Column :: Column

text \<open>
  The state of the loop of \<^verbatim>\<open>ktColumnsToStruct\<close>: the struct under construction and the
  two maps \<^verbatim>\<open>idSeen\<close> and \<^verbatim>\<open>nameSeen\<close>. Reading a missing key of \<^verbatim>\<open>nameSeen\<close> gives 0.
\<close>

type_synonym columnsState = "Struct \<times> (int \<rightharpoonup> Field) \<times> (string \<rightharpoonup> int)"

definition nameSeen_get :: "(string \<rightharpoonup> int) \<Rightarrow> string \<Rightarrow> int" where
  "nameSeen_get nameSeen n = (case nameSeen n of None \<Rightarrow> 0 | Some v \<Rightarrow> v)"

definition ktColumnsToStruct_step ::
  "deps \<Rightarrow> CodeGenRequest \<Rightarrow> (Column \<Rightarrow> int \<Rightarrow> string) \<Rightarrow> columnsState \<Rightarrow> goColumn
     \<Rightarrow> columnsState" where
  "ktColumnsToStruct_step x req namer st c =
     (case st of
        (gs, idSeen, nameSeen) \<Rightarrow>
          (case idSeen (gc_id c) of
             Some binding \<Rightarrow>
               (gs\<lparr>st_JDBCParamBindings := st_JDBCParamBindings gs @ [binding]\<rparr>,
                idSeen, nameSeen)
           | None \<Rightarrow>
               (let fieldName0 =
                      memberName x (namer (gc_Column c) (gc_id c)) (req_Settings req);
                    v = nameSeen_get nameSeen (col_Name (gc_Column c));
                    fieldName =
                      (if v > 0 then fieldName0 @ ''_'' @ fmt_d (v + 1) else fieldName0);
                    field =
                      \<lparr>fld_Name = fieldName,
                       fld_Type = makeType x req (gc_Column c),
                       fld_Comment = []\<rparr>
                in (gs\<lparr>st_Fields := st_Fields gs @ [field],
                       st_JDBCParamBindings := st_JDBCParamBindings gs @ [field]\<rparr>,
                    idSeen(gc_id c \<mapsto> field),
                    nameSeen(col_Name (gc_Column c) \<mapsto> v + 1)))))"

definition ktColumnsToStruct_init :: "string \<Rightarrow> columnsState" where
  "ktColumnsToStruct_init name =
     (\<lparr>st_Table = zero_Identifier, st_Name = name, st_Fields = [],
       st_JDBCParamBindings = [], st_Comment = []\<rparr>,
      Map.empty, Map.empty)"

definition ktColumnsToStruct ::
  "deps \<Rightarrow> CodeGenRequest \<Rightarrow> string \<Rightarrow> goColumn list \<Rightarrow> (Column \<Rightarrow> int \<Rightarrow> string) \<Rightarrow> Struct" where
  "ktColumnsToStruct x req name columns namer =
     fst (foldl (ktColumnsToStruct_step x req namer) (ktColumnsToStruct_init name) columns)"

definition ktArgName :: "deps \<Rightarrow> string \<Rightarrow> string" where
  "ktArgName x name =
     (case strings_Split name (CHR ''_'') of
        [] \<Rightarrow> []
      | p # ps \<Rightarrow> strings_ToLower x p @ concat (map (strings_Title x) ps))"

definition ktParamName :: "deps \<Rightarrow> Column \<Rightarrow> int \<Rightarrow> string" where
  "ktParamName x c number =
     (if col_Name c \<noteq> [] then ktArgName x (col_Name c) else ''dollar_'' @ fmt_d number)"

definition ktColumnName :: "Column \<Rightarrow> int \<Rightarrow> string" where
  "ktColumnName c pos =
     (if col_Name c \<noteq> [] then col_Name c else ''column_'' @ fmt_d (pos + 1))"

subsection \<open>Placeholders\<close>

text \<open>
  \<^verbatim>\<open>postgresPlaceholderRegexp\<close> is \<^verbatim>\<open>\B\$\d+\b\<close>. At a dollar sign, \<^verbatim>\<open>\B\<close> holds when the
  byte before it is not a word character (\<^verbatim>\<open>[0-9A-Za-z_]\<close>) or the text starts there;
  \<^verbatim>\<open>\d+\<close> takes the whole run of digits, and \<^verbatim>\<open>\b\<close> after a digit holds when the text
  ends or goes on with a byte that is not a word character (with fewer digits the next
  byte is a digit, so no shorter match exists). \<^verbatim>\<open>placeholderDigits\<close> gives the number
  of digits of the match that starts at the head of the text, given the byte before it.
\<close>

definition isWordChar :: "char \<Rightarrow> bool" where
  "isWordChar c = isIdentChar c"

definition isDigit :: "char \<Rightarrow> bool" where
  "isDigit c = (CHR ''0'' \<le> c \<and> c \<le> CHR ''9'')"

definition placeholderDigits :: "char option \<Rightarrow> string \<Rightarrow> nat option" where
  "placeholderDigits prev s =
     (case s of
        [] \<Rightarrow> None
      | c # rest \<Rightarrow>
          if c = CHR ''$'' \<and> (case prev of None \<Rightarrow> True | Some p \<Rightarrow> \<not> isWordChar p)
          then (let ds = takeWhile isDigit rest; after = dropWhile isDigit rest
                in if ds \<noteq> [] \<and> (case after of [] \<Rightarrow> True | a # _ \<Rightarrow> \<not> isWordChar a)
                   then Some (length ds) else None)
          else None)"

text \<open>
  \<^verbatim>\<open>postgresPlaceholderRegexp.ReplaceAllString(s, repl)\<close>: the text is scanned from the
  left; a match is replaced and the scan goes on behind it, any other byte is copied.
  The first argument is the byte before the current position.
\<close>

function postgresPlaceholderRegexp_ReplaceAllString ::
  "char option \<Rightarrow> string \<Rightarrow> string \<Rightarrow> string" where
  "postgresPlaceholderRegexp_ReplaceAllString prev [] repl = []"
| "postgresPlaceholderRegexp_ReplaceAllString prev (c # cs) repl =
     (case placeholderDigits prev (c # cs) of
        Some k \<Rightarrow>
          repl @ postgresPlaceholderRegexp_ReplaceAllString
                   (Some (last (c # take k cs))) (drop k cs) repl
      | None \<Rightarrow> c # postgresPlaceholderRegexp_ReplaceAllString (Some c) cs repl)"
  by pat_completeness auto
termination
  by (relation "measure (\<lambda>(prev, s, repl). length s)") auto

definition jdbcSQL :: "string \<Rightarrow> string \<Rightarrow> string" where
  "jdbcSQL s engine =
     (if engine = ''postgresql'' then postgresPlaceholderRegexp_ReplaceAllString None s ''?''
      else s)"

subsection \<open>Queries\<close>

text \<open>
  The search for a data class with the shape of the result columns. \<^verbatim>\<open>sameColumn\<close> is
  the body of the inner loop at index \<^verbatim>\<open>i\<close>; the loop clears the flag \<^verbatim>\<open>same\<close> at every
  position that differs and does not stop early. The outer loop stops at the first struct
  whose flag is still set.
\<close>

definition sameColumn ::
  "deps \<Rightarrow> CodeGenRequest \<Rightarrow> Struct \<Rightarrow> Column list \<Rightarrow> nat \<Rightarrow> Field \<Rightarrow> bool" where
  "sameColumn x req s columns i f =
     (let c = columns ! i;
          sameName = (fld_Name f = memberName x (ktColumnName c (int i)) (req_Settings req));
          sameType = (fld_Type f = makeType x req c);
          sameTable =
            sdk_SameTableName x (col_Table c) (st_Table s) (cat_DefaultSchema (req_Catalog req))
      in \<not> (\<not> sameName \<or> \<not> sameType \<or> \<not> sameTable))"

definition sameStruct :: "deps \<Rightarrow> CodeGenRequest \<Rightarrow> Struct \<Rightarrow> Column list \<Rightarrow> bool" where
  "sameStruct x req s columns =
     foldl (\<lambda>same (i, f). if sameColumn x req s columns i f then same else False) True
       (enumerate 0 (st_Fields s))"

definition findStruct ::
  "deps \<Rightarrow> CodeGenRequest \<Rightarrow> Struct list \<Rightarrow> Column list \<Rightarrow> Struct option" where
  "findStruct x req structs columns =
     find (\<lambda>s. length (st_Fields s) = length columns \<and> sameStruct x req s columns) structs"

definition queryRet ::
  "deps \<Rightarrow> CodeGenRequest \<Rightarrow> Struct list \<Rightarrow> string \<Rightarrow> Column list \<Rightarrow> QueryValue" where
  "queryRet x req structs className columns =
     (if length columns = 1 then
        \<lparr>qv_Emit = False, qv_Name = ''results'', qv_Struct = None,
         qv_Typ = makeType x req (columns ! 0), qv_JDBCParamBindCount = 0\<rparr>
      else if length columns > 1 then
        (case findStruct x req structs columns of
           Some s \<Rightarrow>
             \<lparr>qv_Emit = False, qv_Name = ''results'', qv_Struct = Some s,
              qv_Typ = zero_ktType, qv_JDBCParamBindCount = 0\<rparr>
         | None \<Rightarrow>
             \<lparr>qv_Emit = True, qv_Name = ''results'',
              qv_Struct =
                Some (ktColumnsToStruct x req (className @ ''Row'')
                        (map (\<lambda>(i, c). \<lparr>gc_id = int i, gc_Column = c\<rparr>) (enumerate 0 columns))
                        ktColumnName),
              qv_Typ = zero_ktType, qv_JDBCParamBindCount = 0\<rparr>)
      else zero_QueryValue)"

text \<open>The part of the loop body of \<^verbatim>\<open>buildQueries\<close> behind the three guards.\<close>

definition compileQuery :: "deps \<Rightarrow> CodeGenRequest \<Rightarrow> Struct list \<Rightarrow> plugin_Query \<Rightarrow> Query" where
  "compileQuery x req structs query =
     (let className = strings_Title x (pq_Name query);
          cols = map (\<lambda>p. \<lparr>gc_id = par_Number p, gc_Column = par_Column p\<rparr>) (pq_Params query);
          params = ktColumnsToStruct x req (className @ ''Bindings'') cols (ktParamName x)
      in \<lparr>ClassName = className,
          Cmd = pq_Cmd query,
          Comments = pq_Comments query,
          MethodName = sdk_LowerTitle x (pq_Name query),
          FieldName = sdk_LowerTitle x (pq_Name query) @ ''Stmt'',
          ConstantName = sdk_LowerTitle x (pq_Name query),
          SQL = jdbcSQL (pq_Text query) (set_Engine (req_Settings req)),
          SourceName = pq_Filename query,
          Ret = queryRet x req structs className (pq_Columns query),
          Arg = \<lparr>par_Struct = params\<rparr>\<rparr>)"

text \<open>
  One turn of the loop: \<^verbatim>\<open>Inr None\<close> when the query is skipped (\<^verbatim>\<open>continue\<close>),
  \<^verbatim>\<open>Inl\<close> the error when the function returns early, \<^verbatim>\<open>Inr (Some gq)\<close> when a query
  descriptor is appended.
\<close>

definition buildQuery ::
  "deps \<Rightarrow> CodeGenRequest \<Rightarrow> Struct list \<Rightarrow> plugin_Query \<Rightarrow> string + Query option" where
  "buildQuery x req structs query =
     (if pq_Name query = [] then Inr None
      else if pq_Cmd query = [] then Inr None
      else if pq_Cmd query = metadata_CmdCopyFrom x
      then Inl ''Support for CopyFrom in Kotlin is not implemented''
      else Inr (Some (compileQuery x req structs query)))"

fun buildQueries_loop ::
  "deps \<Rightarrow> CodeGenRequest \<Rightarrow> Struct list \<Rightarrow> plugin_Query list \<Rightarrow> Query list
     \<Rightarrow> string + Query list" where
  "buildQueries_loop x req structs [] qs = Inr qs"
| "buildQueries_loop x req structs (query # rest) qs =
     (case buildQuery x req structs query of
        Inl err \<Rightarrow> Inl err
      | Inr None \<Rightarrow> buildQueries_loop x req structs rest qs
      | Inr (Some gq) \<Rightarrow> buildQueries_loop x req structs rest (qs @ [gq]))"

definition buildQueries :: "deps \<Rightarrow> CodeGenRequest \<Rightarrow> Struct list \<Rightarrow> string + Query list" where
  "buildQueries x req structs =
     (case buildQueries_loop x req structs (req_Queries req) [] of
        Inl err \<Rightarrow> Inl err
      | Inr qs \<Rightarrow> Inr (sort_Slice MethodName qs))"

subsection \<open>The entry point\<close>

fun strings_Join :: "string list \<Rightarrow> string \<Rightarrow> string" where
  "strings_Join [] sep = []"
| "strings_Join [a] sep = a"
| "strings_Join (a # b # rest) sep = a @ sep @ strings_Join (b # rest) sep"

fun ktFormat_loop :: "deps \<Rightarrow> string list \<Rightarrow> bool \<Rightarrow> string list \<Rightarrow> string list" where
  "ktFormat_loop x [] skipNextSpace lines = lines"
| "ktFormat_loop x (l # ls) skipNextSpace lines =
     (let isSpace = (length (strings_TrimSpace x l) = 0)
      in ktFormat_loop x ls isSpace
           (if \<not> isSpace \<or> \<not> skipNextSpace then lines @ [l] else lines))"

definition ktFormat :: "deps \<Rightarrow> string \<Rightarrow> string" where
  "ktFormat x s =
     strings_Join (ktFormat_loop x (strings_Split s (CHR 0x0A)) False []) [CHR 0x0A]
       @ [CHR 0x0A]"

text \<open>
  The closure \<^verbatim>\<open>execute\<close> of \<^verbatim>\<open>Generate\<close>: it writes the name into the template
  context, renders the template and stores the formatted text in the map \<^verbatim>\<open>output\<close>.
  The map is kept as a list of entries with distinct keys.
\<close>

definition execute ::
  "deps \<Rightarrow> ktTmplCtx \<times> (string \<times> string) list \<Rightarrow> string \<Rightarrow> template
     \<Rightarrow> string + ktTmplCtx \<times> (string \<times> string) list" where
  "execute x st name t =
     (case st of
        (tctx, output) \<Rightarrow>
          (let tctx1 = tctx\<lparr>tc_SourceName := name\<rparr>
           in case template_Execute x t tctx1 of
                Inl err \<Rightarrow> Inl err
              | Inr text \<Rightarrow>
                  Inr (tctx1,
                       AList.update (if suffix ''.kt'' name then name else name @ ''.kt'')
                         (ktFormat x text) output)))"

text \<open>\<^verbatim>\<open>Generate\<close> up to the map \<^verbatim>\<open>output\<close> of file names and contents.\<close>

definition Generate_output :: "deps \<Rightarrow> CodeGenRequest \<Rightarrow> string + (string \<times> string) list" where
  "Generate_output x req =
     (let enums = buildEnums x req;
          structs = buildDataClasses x req
      in case buildQueries x req structs of
           Inl err \<Rightarrow> Inl err
         | Inr queries \<Rightarrow>
             (let tctx =
                    \<lparr>tc_Q = [CHR 0x22, CHR 0x22, CHR 0x22],
                     tc_Package = Package (set_Kotlin (req_Settings req)),
                     tc_Enums = enums,
                     tc_DataClasses = structs,
                     tc_Queries = queries,
                     tc_Settings = req_Settings req,
                     tc_SqlcVersion = req_SqlcVersion req,
                     tc_SourceName = [],
                     tc_EmitJSONTags = False,
                     tc_EmitPreparedQueries = False,
                     tc_EmitInterface = False\<rparr>
              in case execute x (tctx, []) ''Models.kt'' ktModelsTmpl of
                   Inl err \<Rightarrow> Inl err
                 | Inr st1 \<Rightarrow>
                     (case execute x st1 ''Queries.kt'' ktIfaceTmpl of
                        Inl err \<Rightarrow> Inl err
                      | Inr st2 \<Rightarrow>
                          (case execute x st2 ''QueriesImpl.kt'' ktSqlTmpl of
                             Inl err \<Rightarrow> Inl err
                           | Inr st3 \<Rightarrow> Inr (snd st3)))))"

text \<open>
  The response lists the files in the order in which \<^verbatim>\<open>range output\<close> visits the map.
  Go leaves the iteration order of a map unspecified, so \<^verbatim>\<open>Generate\<close> is a relation
  between the request and its possible results: the error (with a \<^verbatim>\<open>nil\<close> response), or
  the entries of the map as files, in any order.
\<close>

definition Generate :: "deps \<Rightarrow> CodeGenRequest \<Rightarrow> string + plugin_File list \<Rightarrow> bool" where
  "Generate x req resp =
     (case Generate_output x req of
        Inl err \<Rightarrow> resp = Inl err
      | Inr output \<Rightarrow>
          (case resp of
             Inl err \<Rightarrow> False
           | Inr files \<Rightarrow>
               mset files =
               mset (map (\<lambda>(filename, code). \<lparr>file_Name = filename, file_Contents = code\<rparr>)
                       output)))"

subsection \<open>A sample of the collaborators\<close>

text \<open>
  The examples of this theory run the model on concrete requests and need one choice of
  the collaborators. The theorems stated for all \<^typ>\<open>deps\<close> do not depend on it.
\<close>

definition toLowerByte :: "char \<Rightarrow> char" where
  "toLowerByte c =
     (case map_of (zip ''ABCDEFGHIJKLMNOPQRSTUVWXYZ'' ''abcdefghijklmnopqrstuvwxyz'') c of
        None \<Rightarrow> c
      | Some l \<Rightarrow> l)"

text \<open>
  Modelled from the spec: \<^verbatim>\<open>sdk.LowerTitle\<close> (not in gen.go) turns the first letter of a
  name into lower case, so that a class name becomes a member name.
\<close>

definition sample_LowerTitle :: "string \<Rightarrow> string" where
  "sample_LowerTitle s = (case s of [] \<Rightarrow> [] | c # cs \<Rightarrow> toLowerByte c # cs)"

text \<open>
  Modelled from the spec: \<^verbatim>\<open>sdk.DataType\<close> (not in gen.go) gives the raw engine type of a
  column as a string, qualified by its schema when it has one.
\<close>

definition sample_DataType :: "Identifier option \<Rightarrow> string" where
  "sample_DataType t =
     (case t of
        None \<Rightarrow> []
      | Some n \<Rightarrow> if id_Schema n \<noteq> [] then id_Schema n @ ''.'' @ id_Name n else id_Name n)"

text \<open>
  Modelled from the spec: \<^verbatim>\<open>sdk.SameTableName\<close> (not in gen.go) compares the owning table
  of a result column with the table of a struct, reading a missing schema of the column
  as the default schema; a column without a table belongs to none.
\<close>

definition sample_SameTableName :: "Identifier option \<Rightarrow> Identifier \<Rightarrow> string \<Rightarrow> bool" where
  "sample_SameTableName tableID f defaultSchema =
     (case tableID of
        None \<Rightarrow> False
      | Some t \<Rightarrow>
          (let schema = (if id_Schema t = [] then defaultSchema else id_Schema t)
           in id_Catalog t = id_Catalog f \<and> schema = id_Schema f \<and> id_Name t = id_Name f))"

text \<open>
  Modelled from the spec: the per-engine tables \<^verbatim>\<open>mysqlType\<close> and \<^verbatim>\<open>postgresType\<close> (not in
  gen.go) map the raw type of a column to a scalar name; a type they do not know resolves
  to the fallback \<^verbatim>\<open>Any\<close>, which is not an enum. The sample knows four types.
\<close>

definition sample_engineType :: "CodeGenRequest \<Rightarrow> Column \<Rightarrow> string \<times> bool" where
  "sample_engineType req col =
     (case map_of
             [(''text'', ''String''), (''uuid'', ''UUID''), (''integer'', ''Int''),
              (''bigint'', ''Long'')]
             (sample_DataType (col_Type col)) of
        None \<Rightarrow> (''Any'', False)
      | Some n \<Rightarrow> (n, False))"

text \<open>
  Go's library functions \<^verbatim>\<open>strings.Title\<close> and \<^verbatim>\<open>strings.ToLower\<close> on a word of ASCII
  letters, and \<^verbatim>\<open>strings.TrimSpace\<close> for the ASCII blanks (the library functions work on
  Unicode text, which the sample does not cover).
\<close>

definition sample_Title :: "string \<Rightarrow> string" where
  "sample_Title s = (case s of [] \<Rightarrow> [] | c # cs \<Rightarrow> toUpperByte c # cs)"

definition sample_ToLower :: "string \<Rightarrow> string" where
  "sample_ToLower s = map toLowerByte s"

definition isBlank :: "char \<Rightarrow> bool" where
  "isBlank c = (c = CHR '' '' \<or> c = CHR 0x09 \<or> c = CHR 0x0A \<or> c = CHR 0x0D)"

definition sample_TrimSpace :: "string \<Rightarrow> string" where
  "sample_TrimSpace s = rev (dropWhile isBlank (rev (dropWhile isBlank s)))"

text \<open>
  Modelled from the spec: the bulk-copy command kind \<^verbatim>\<open>metadata.CmdCopyFrom\<close>, the
  singularisation (here the identity) and the rendering of a template (here a text that
  names the template and the file) are not in gen.go.
\<close>

definition sample_Execute :: "template \<Rightarrow> ktTmplCtx \<Rightarrow> string + string" where
  "sample_Execute t tctx =
     Inr ((case t of ktModelsTmpl \<Rightarrow> ''models '' | ktSqlTmpl \<Rightarrow> ''sql ''
           | ktIfaceTmpl \<Rightarrow> ''interface '') @ tc_SourceName tctx)"

definition sample_deps :: deps where
  "sample_deps =
     \<lparr>sdk_LowerTitle = sample_LowerTitle,
      sdk_DataType = sample_DataType,
      sdk_SameTableName = sample_SameTableName,
      inflection_Singular = (\<lambda>name exclusions. name),
      mysqlType = sample_engineType,
      postgresType = sample_engineType,
      metadata_CmdCopyFrom = '':copyfrom'',
      strings_Title = sample_Title,
      strings_ToLower = sample_ToLower,
      strings_TrimSpace = sample_TrimSpace,
      template_Execute = sample_Execute\<rparr>"

subsection \<open>Notions used by the statements\<close>

text \<open>A query passes the first two guards of the loop of \<^verbatim>\<open>buildQueries\<close>.\<close>

definition queryIsNamed :: "plugin_Query \<Rightarrow> bool" where
  "queryIsNamed query = (pq_Name query \<noteq> [] \<and> pq_Cmd query \<noteq> [])"

text \<open>
  The match between the ordered result columns of a query and a struct: as many fields as
  columns, and at every position the same resolved field name, the same type descriptor,
  and the column's table is the struct's table.
\<close>

definition shapeMatches :: "deps \<Rightarrow> CodeGenRequest \<Rightarrow> Struct \<Rightarrow> Column list \<Rightarrow> bool" where
  "shapeMatches x req s columns =
     (length (st_Fields s) = length columns \<and>
      list_all
        (\<lambda>i. fld_Name (st_Fields s ! i) =
               memberName x (ktColumnName (columns ! i) (int i)) (req_Settings req) \<and>
             fld_Type (st_Fields s ! i) = makeType x req (columns ! i) \<and>
             sdk_SameTableName x (col_Table (columns ! i)) (st_Table s)
               (cat_DefaultSchema (req_Catalog req)))
        [0..<length columns])"

subsection \<open>A sample request\<close>

text \<open>
  A catalog with the tables \<^verbatim>\<open>users(id uuid not null, email text)\<close> and
  \<^verbatim>\<open>tags(label text not null)\<close> and the enum \<^verbatim>\<open>user_status\<close> in the default schema
  \<^verbatim>\<open>public\<close>, for the examples.
\<close>

definition ex_settings :: "string \<Rightarrow> Settings" where
  "ex_settings engine =
     \<lparr>set_Engine = engine, set_Rename = Map.empty,
      set_Kotlin =
        \<lparr>EmitExactTableNames = True, InflectionExcludeTableNames = [], Package = ''db''\<rparr>\<rparr>"

definition ex_colOf :: "string \<Rightarrow> string \<Rightarrow> string \<Rightarrow> bool \<Rightarrow> Column" where
  "ex_colOf table name typ notNull =
     \<lparr>col_Name = name, col_NotNull = notNull, col_IsArray = False, col_Comment = [],
      col_Length = 0,
      col_Table = Some \<lparr>id_Catalog = [], id_Schema = [], id_Name = table\<rparr>,
      col_Type = Some \<lparr>id_Catalog = [], id_Schema = [], id_Name = typ\<rparr>\<rparr>"

definition ex_col :: "string \<Rightarrow> string \<Rightarrow> bool \<Rightarrow> Column" where
  "ex_col name typ notNull = ex_colOf ''users'' name typ notNull"

definition ex_catalog :: plugin_Catalog where
  "ex_catalog =
     \<lparr>cat_DefaultSchema = ''public'',
      cat_Schemas =
        [\<lparr>sch_Name = ''public'',
          sch_Tables =
            [\<lparr>tbl_Rel = \<lparr>id_Catalog = [], id_Schema = [], id_Name = ''users''\<rparr>,
              tbl_Columns = [ex_col ''id'' ''uuid'' True, ex_col ''email'' ''text'' False],
              tbl_Comment = []\<rparr>,
             \<lparr>tbl_Rel = \<lparr>id_Catalog = [], id_Schema = [], id_Name = ''tags''\<rparr>,
              tbl_Columns = [ex_colOf ''tags'' ''label'' ''text'' True],
              tbl_Comment = []\<rparr>],
          sch_Enums =
            [\<lparr>pe_Name = ''user_status'', pe_Vals = [''active'', ''inactive''],
              pe_Comment = []\<rparr>]\<rparr>]\<rparr>"

definition ex_req :: "string \<Rightarrow> plugin_Query list \<Rightarrow> CodeGenRequest" where
  "ex_req engine queries =
     \<lparr>req_Settings = ex_settings engine, req_Catalog = ex_catalog, req_Queries = queries,
      req_SqlcVersion = ''v1''\<rparr>"

definition ex_query ::
  "string \<Rightarrow> string \<Rightarrow> string \<Rightarrow> Column list \<Rightarrow> Parameter list \<Rightarrow> plugin_Query" where
  "ex_query name cmd text columns params =
     \<lparr>pq_Text = text, pq_Name = name, pq_Cmd = cmd, pq_Columns = columns, pq_Params = params,
      pq_Comments = [], pq_Filename = ''query.sql''\<rparr>"

definition ex_exec :: plugin_Query where
  "ex_exec = ex_query ''Touch'' '':exec'' ''UPDATE users SET email = email'' [] []"

definition ex_getEmail :: plugin_Query where
  "ex_getEmail =
     ex_query ''GetEmail'' '':one'' ''SELECT email FROM users'' [ex_col ''email'' ''text'' False] []"

definition ex_copy :: "string \<Rightarrow> plugin_Query" where
  "ex_copy name =
     ex_query name '':copyfrom'' ''INSERT INTO users (id, email) VALUES ($1, $2)'' [] []"

text \<open>The three files that the sample rendering produces for any request.\<close>

definition ex_files :: "plugin_File list" where
  "ex_files =
     [\<lparr>file_Name = ''Models.kt'', file_Contents = ''models Models.kt'' @ [CHR 0x0A]\<rparr>,
      \<lparr>file_Name = ''Queries.kt'', file_Contents = ''interface Queries.kt'' @ [CHR 0x0A]\<rparr>,
      \<lparr>file_Name = ''QueriesImpl.kt'', file_Contents = ''sql QueriesImpl.kt'' @ [CHR 0x0A]\<rparr>]"

text \<open>The data classes of the two tables, as \<^verbatim>\<open>buildDataClasses\<close> builds them.\<close>

definition ex_kt :: "string \<Rightarrow> string \<Rightarrow> string \<Rightarrow> bool \<Rightarrow> ktType" where
  "ex_kt engine name dataType null =
     \<lparr>kt_Name = name, kt_IsEnum = False, kt_IsArray = False, kt_IsNull = null,
      kt_DataType = dataType, kt_Engine = engine\<rparr>"

definition ex_Users :: "string \<Rightarrow> Struct" where
  "ex_Users engine =
     \<lparr>st_Table = \<lparr>id_Catalog = [], id_Schema = ''public'', id_Name = ''users''\<rparr>,
      st_Name = ''Users'',
      st_Fields =
        [\<lparr>fld_Name = ''id'', fld_Type = ex_kt engine ''UUID'' ''uuid'' False, fld_Comment = []\<rparr>,
         \<lparr>fld_Name = ''email'', fld_Type = ex_kt engine ''String'' ''text'' True,
          fld_Comment = []\<rparr>],
      st_JDBCParamBindings = [],
      st_Comment = []\<rparr>"

definition ex_Tags :: "string \<Rightarrow> Struct" where
  "ex_Tags engine =
     \<lparr>st_Table = \<lparr>id_Catalog = [], id_Schema = ''public'', id_Name = ''tags''\<rparr>,
      st_Name = ''Tags'',
      st_Fields =
        [\<lparr>fld_Name = ''label'', fld_Type = ex_kt engine ''String'' ''text'' False,
          fld_Comment = []\<rparr>],
      st_JDBCParamBindings = [],
      st_Comment = []\<rparr>"

definition ex_getUser :: plugin_Query where
  "ex_getUser =
     ex_query ''GetUser'' '':one'' ''SELECT id, email FROM users WHERE id = $1''
       [ex_col ''id'' ''uuid'' True, ex_col ''email'' ''text'' False]
       [\<lparr>par_Number = 1, par_Column = ex_col ''id'' ''uuid'' True\<rparr>]"

definition ex_listEmails :: plugin_Query where
  "ex_listEmails =
     ex_query ''ListEmails'' '':many'' ''SELECT email, id FROM users''
       [ex_col ''email'' ''text'' False, ex_col ''id'' ''uuid'' True] []"

definition ex_getTag :: plugin_Query where
  "ex_getTag =
     ex_query ''GetTag'' '':one'' ''SELECT label FROM tags LIMIT 1''
       [ex_colOf ''tags'' ''label'' ''text'' True] []"

subsection \<open>The closed form of the loop of ktColumnsToStruct\<close>

text \<open>
  The columns that carry an id for the first time, in order; the first argument lists the
  ids seen before.
\<close>

fun firstOccurrences_from :: "int list \<Rightarrow> goColumn list \<Rightarrow> goColumn list" where
  "firstOccurrences_from seen [] = []"
| "firstOccurrences_from seen (c # cs) =
     (if gc_id c \<in> set seen then firstOccurrences_from seen cs
      else c # firstOccurrences_from (gc_id c # seen) cs)"

definition firstOccurrences :: "goColumn list \<Rightarrow> goColumn list" where
  "firstOccurrences columns = firstOccurrences_from [] columns"

text \<open>How many of the given columns have the raw column name \<^verbatim>\<open>n\<close>.\<close>

definition nameCount :: "string \<Rightarrow> goColumn list \<Rightarrow> int" where
  "nameCount n cs = int (length (filter (\<lambda>d. col_Name (gc_Column d) = n) cs))"

text \<open>
  The field of a column that carries a new id, given the columns that carried a new id
  before it: the member name of the namer's result, with the suffix \<^verbatim>\<open>_k\<close> when the raw
  column name was used by \<^verbatim>\<open>k - 1 > 0\<close> of the earlier columns.
\<close>

definition fieldFor ::
  "deps \<Rightarrow> CodeGenRequest \<Rightarrow> (Column \<Rightarrow> int \<Rightarrow> string) \<Rightarrow> goColumn list \<Rightarrow> goColumn \<Rightarrow> Field" where
  "fieldFor x req namer earlier c =
     (let base = memberName x (namer (gc_Column c) (gc_id c)) (req_Settings req);
          v = nameCount (col_Name (gc_Column c)) earlier
      in \<lparr>fld_Name = (if v > 0 then base @ ''_'' @ fmt_d (v + 1) else base),
          fld_Type = makeType x req (gc_Column c),
          fld_Comment = []\<rparr>)"

definition fieldsOf ::
  "deps \<Rightarrow> CodeGenRequest \<Rightarrow> (Column \<Rightarrow> int \<Rightarrow> string) \<Rightarrow> goColumn list \<Rightarrow> Field list" where
  "fieldsOf x req namer fs = map (\<lambda>k. fieldFor x req namer (take k fs) (fs ! k)) [0..<length fs]"

text \<open>The field that was created for an id, if any.\<close>

definition fieldOfId ::
  "deps \<Rightarrow> CodeGenRequest \<Rightarrow> (Column \<Rightarrow> int \<Rightarrow> string) \<Rightarrow> goColumn list \<Rightarrow> int \<rightharpoonup> Field" where
  "fieldOfId x req namer columns =
     map_of (zip (map gc_id (firstOccurrences columns))
                 (fieldsOf x req namer (firstOccurrences columns)))"

text \<open>The state of the loop after the given columns, in closed form.\<close>

definition ktColumnsToStruct_closed ::
  "deps \<Rightarrow> CodeGenRequest \<Rightarrow> (Column \<Rightarrow> int \<Rightarrow> string) \<Rightarrow> string \<Rightarrow> goColumn list
     \<Rightarrow> columnsState" where
  "ktColumnsToStruct_closed x req namer name columns =
     (\<lparr>st_Table = zero_Identifier,
       st_Name = name,
       st_Fields = fieldsOf x req namer (firstOccurrences columns),
       st_JDBCParamBindings = map (\<lambda>c. the (fieldOfId x req namer columns (gc_id c))) columns,
       st_Comment = []\<rparr>,
      fieldOfId x req namer columns,
      (\<lambda>n. if nameCount n (firstOccurrences columns) = 0 then None
           else Some (nameCount n (firstOccurrences columns))))"

text \<open>Four usages of two parameters: number 1 three times and number 2 once.\<close>

definition ex_cols :: "goColumn list" where
  "ex_cols =
     [\<lparr>gc_id = 1, gc_Column = ex_col ''id'' ''uuid'' True\<rparr>,
      \<lparr>gc_id = 2, gc_Column = ex_col ''email'' ''text'' False\<rparr>,
      \<lparr>gc_id = 1, gc_Column = ex_col ''id'' ''uuid'' True\<rparr>,
      \<lparr>gc_id = 1, gc_Column = ex_col ''id'' ''uuid'' True\<rparr>]"

text \<open>The name of a field before a suffix is added: the member name of the namer's result.\<close>

definition baseName ::
  "deps \<Rightarrow> CodeGenRequest \<Rightarrow> (Column \<Rightarrow> int \<Rightarrow> string) \<Rightarrow> goColumn \<Rightarrow> string" where
  "baseName x req namer c = memberName x (namer (gc_Column c) (gc_id c)) (req_Settings req)"

text \<open>Three result columns, two of them with the raw name \<^verbatim>\<open>id\<close>.\<close>

definition ex_rowCols :: "goColumn list" where
  "ex_rowCols =
     [\<lparr>gc_id = 0, gc_Column = ex_col ''id'' ''uuid'' True\<rparr>,
      \<lparr>gc_id = 1, gc_Column = ex_col ''email'' ''text'' False\<rparr>,
      \<lparr>gc_id = 2, gc_Column = ex_col ''id'' ''uuid'' True\<rparr>]"

text \<open>
  A request with the table \<^verbatim>\<open>links(user_id uuid not null, userId text not null)\<close> and a
  query that selects the two columns in the other order.
\<close>

definition ex_clashReq :: CodeGenRequest where
  "ex_clashReq =
     \<lparr>req_Settings = ex_settings ''postgresql'',
      req_Catalog =
        \<lparr>cat_DefaultSchema = ''public'',
         cat_Schemas =
           [\<lparr>sch_Name = ''public'',
             sch_Tables =
               [\<lparr>tbl_Rel = \<lparr>id_Catalog = [], id_Schema = [], id_Name = ''links''\<rparr>,
                 tbl_Columns =
                   [ex_colOf ''links'' ''user_id'' ''uuid'' True,
                    ex_colOf ''links'' ''userId'' ''text'' True],
                 tbl_Comment = []\<rparr>],
             sch_Enums = []\<rparr>]\<rparr>,
      req_Queries =
        [ex_query ''ListLinks'' '':many'' ''SELECT userId, user_id FROM links''
           [ex_colOf ''links'' ''userId'' ''text'' True,
            ex_colOf ''links'' ''user_id'' ''uuid'' True] []],
      req_SqlcVersion = ''v1''\<rparr>"

subsection \<open>The per-engine type tables, from the spec\<close>

text \<open>
  Modelled from the spec: \<^verbatim>\<open>mysqlType\<close> and \<^verbatim>\<open>postgresType\<close> are called by
  \<^verbatim>\<open>ktInnerType\<close> but are not in gen.go. The spec describes the resolver as
  \<^verbatim>\<open>resolve(engine, rawType, nullable, isArray)\<close> with one mapping table per engine
  (a \<^verbatim>\<open>mysql\<close> table and a \<^verbatim>\<open>postgresql\<close> table), where an unknown or unsupported raw
  type resolves to a generic fallback descriptor and never to an error. A table maps a raw
  type to a scalar name and the enum flag; the contents of the tables are not in the spec
  and stay parameters. The raw type of a column is \<^verbatim>\<open>sdk.DataType(col.Type)\<close>, which the
  spec takes to be defined for every column.
\<close>

type_synonym typeTable = "(string \<times> string \<times> bool) list"

definition spec_engineType :: "typeTable \<Rightarrow> deps \<Rightarrow> CodeGenRequest \<Rightarrow> Column \<Rightarrow> string \<times> bool" where
  "spec_engineType table x req col =
     (case map_of table (sdk_DataType x (col_Type col)) of
        None \<Rightarrow> (''Any'', False)
      | Some r \<Rightarrow> r)"

text \<open>
  Modelled from the spec: the collaborators with the two type tables of the spec in the
  place of \<^verbatim>\<open>mysqlType\<close> and \<^verbatim>\<open>postgresType\<close>; the other collaborators stay as they are.
\<close>

definition withSpecTables :: "typeTable \<Rightarrow> typeTable \<Rightarrow> deps \<Rightarrow> deps" where
  "withSpecTables mysqlTable postgresTable x =
     x\<lparr>mysqlType := spec_engineType mysqlTable x,
       postgresType := spec_engineType postgresTable x\<rparr>"

text \<open>Two small tables for the examples; \<^verbatim>\<open>user_status\<close> is an enum of the sample catalog.\<close>

definition ex_mysqlTable :: typeTable where
  "ex_mysqlTable = [(''text'', ''String'', False), (''bigint'', ''Long'', False)]"

definition ex_postgresTable :: typeTable where
  "ex_postgresTable =
     [(''text'', ''String'', False), (''uuid'', ''UUID'', False),
      (''user_status'', ''UserStatus'', True)]"

section \<open>Enum identifiers\<close>

lemma strings_Replace_byte:
  "strings_Replace s [a] [b] = map (\<lambda>c. if c = a then b else c) s"
  by (induction s) auto

lemma ktIdentPattern_delete:
  "ktIdentPattern_ReplaceAllString s [] = filter isIdentChar s"
proof (induction s "[] :: string" rule: ktIdentPattern_ReplaceAllString.induct)
  case 1
  show ?case by simp
next
  case (2 c cs)
  show ?case
  proof (cases "isIdentChar c")
    case True
    with 2 show ?thesis by simp
  next
    case False
    have "filter isIdentChar (dropWhile (\<lambda>d. \<not> isIdentChar d) cs) = filter isIdentChar cs"
      by (induction cs) auto
    with False 2 show ?thesis by simp
  qed
qed

lemma separators_composed:
  "(\<lambda>c. if c = CHR ''/'' then CHR ''_'' else c) \<circ>
   ((\<lambda>c. if c = CHR '':'' then CHR ''_'' else c) \<circ>
    (\<lambda>c. if c = CHR ''-'' then CHR ''_'' else c)) = separatorToUnderscore"
  by (auto simp: fun_eq_iff separatorToUnderscore_def)

lemma ktEnumValueName_eq_spec: "ktEnumValueName v = enumIdentifier_spec v"
proof -
  have "strings_Replace (strings_Replace (strings_Replace v ''-'' ''_'') '':'' ''_'') ''/'' ''_''
        = map separatorToUnderscore v"
    unfolding strings_Replace_byte map_map separators_composed ..
  then show ?thesis
    by (simp add: ktEnumValueName_def enumIdentifier_spec_def ktIdentPattern_delete
        strings_ToUpper_def)
qed

lemma set_sort_Slice: "set (sort_Slice key xs) = set xs"
  by (simp add: sort_Slice_def)

lemma set_buildEnums:
  "set (buildEnums x req) =
   (\<Union>schema \<in> {s \<in> set (cat_Schemas (req_Catalog req)). \<not> isSystemSchema s}.
      buildEnum x req schema ` set (sch_Enums schema))"
  by (auto simp: buildEnums_def Let_def set_sort_Slice)

lemma enum_Constants_buildEnum:
  "enum_Constants (buildEnum x req schema enum) =
   map (\<lambda>v. \<lparr>const_Name = ktEnumValueName v,
              const_Type = enum_Name (buildEnum x req schema enum),
              const_Value = v\<rparr>)
     (pe_Vals enum)"
  by (simp add: buildEnum_def Let_def)

text \<open>
  Claim C7. The identifier of an enum constant is the raw value with every \<^verbatim>\<open>-\<close>,
  \<^verbatim>\<open>:\<close> and \<^verbatim>\<open>/\<close> replaced by an underscore, every remaining character outside
  \<^verbatim>\<open>[A-Za-z0-9_]\<close> deleted, and the result in upper case; the raw value
  \<^verbatim>\<open>foo-bar:baz/qux\<close> gives \<^verbatim>\<open>FOO_BAR_BAZ_QUX\<close>. Every constant of a built enum stores
  the raw value as it is: the values of the constants are the values of the catalog's
  enum, in order, and the enums of \<^verbatim>\<open>buildEnums\<close> are exactly the enums built from the
  schemas that are not system schemas.
\<close>

theorem ktEnumValueName_derivation:
  "ktEnumValueName v = enumIdentifier_spec v \<and>
   ktEnumValueName ''foo-bar:baz/qux'' = ''FOO_BAR_BAZ_QUX'' \<and>
   enum_Constants (buildEnum x req schema enum) =
     map (\<lambda>v. \<lparr>const_Name = ktEnumValueName v,
                const_Type = enum_Name (buildEnum x req schema enum),
                const_Value = v\<rparr>)
       (pe_Vals enum) \<and>
   map const_Value (enum_Constants (buildEnum x req schema enum)) = pe_Vals enum \<and>
   set (buildEnums x req) =
     (\<Union>schema \<in> {s \<in> set (cat_Schemas (req_Catalog req)). \<not> isSystemSchema s}.
        buildEnum x req schema ` set (sch_Enums schema))"
proof -
  have literal: "ktEnumValueName ''foo-bar:baz/qux'' = ''FOO_BAR_BAZ_QUX''"
    by (simp add: ktEnumValueName_eq_spec enumIdentifier_spec_def separatorToUnderscore_def
        toUpperByte_def isIdentChar_def)
  have stored: "map const_Value (enum_Constants (buildEnum x req schema enum)) = pe_Vals enum"
    by (simp add: buildEnum_def Let_def comp_def)
  show ?thesis
    using ktEnumValueName_eq_spec [of v] literal stored
      enum_Constants_buildEnum [of x req schema enum] set_buildEnums [of x req]
    by simp
qed

section \<open>Shared facts\<close>

lemma sample_simps:
  "sdk_LowerTitle sample_deps = sample_LowerTitle"
  "sdk_DataType sample_deps = sample_DataType"
  "sdk_SameTableName sample_deps = sample_SameTableName"
  "inflection_Singular sample_deps = (\<lambda>name exclusions. name)"
  "mysqlType sample_deps = sample_engineType"
  "postgresType sample_deps = sample_engineType"
  "metadata_CmdCopyFrom sample_deps = '':copyfrom''"
  "strings_Title sample_deps = sample_Title"
  "strings_ToLower sample_deps = sample_ToLower"
  "strings_TrimSpace sample_deps = sample_TrimSpace"
  "template_Execute sample_deps = sample_Execute"
  by (simp_all add: sample_deps_def)

text \<open>
  The loop of \<^verbatim>\<open>buildQueries\<close> in closed form: it fails when a query that has a name
  and a command is a bulk copy, and otherwise compiles these queries in order.
\<close>

lemma buildQueries_loop_eq:
  "buildQueries_loop x req structs queries qs =
     (if \<exists>q \<in> set queries. queryIsNamed q \<and> pq_Cmd q = metadata_CmdCopyFrom x
      then Inl ''Support for CopyFrom in Kotlin is not implemented''
      else Inr (qs @ map (compileQuery x req structs) (filter queryIsNamed queries)))"
  by (induction queries arbitrary: qs) (auto simp: buildQuery_def queryIsNamed_def)

lemma buildQueries_eq:
  "buildQueries x req structs =
     (if \<exists>q \<in> set (req_Queries req). queryIsNamed q \<and> pq_Cmd q = metadata_CmdCopyFrom x
      then Inl ''Support for CopyFrom in Kotlin is not implemented''
      else Inr (sort_Slice MethodName
                  (map (compileQuery x req structs) (filter queryIsNamed (req_Queries req)))))"
  by (simp add: buildQueries_def buildQueries_loop_eq)

lemma set_buildQueries:
  "buildQueries x req structs = Inr qs \<Longrightarrow>
   set qs = compileQuery x req structs ` {q \<in> set (req_Queries req). queryIsNamed q}"
  by (auto simp: buildQueries_eq set_sort_Slice split: if_splits)

lemma Generate_error:
  "buildQueries x req (buildDataClasses x req) = Inl err \<Longrightarrow>
   Generate x req resp = (resp = Inl err)"
  by (simp add: Generate_def Generate_output_def Let_def)

lemma step_st_Name:
  "st_Name (fst (ktColumnsToStruct_step x req namer st c)) = st_Name (fst st)"
  by (auto simp: ktColumnsToStruct_step_def Let_def split: prod.splits option.splits)

lemma foldl_st_Name:
  "st_Name (fst (foldl (ktColumnsToStruct_step x req namer) st cols)) = st_Name (fst st)"
  by (induction cols arbitrary: st) (simp_all add: step_st_Name)

lemma st_Name_ktColumnsToStruct [simp]:
  "st_Name (ktColumnsToStruct x req name cols namer) = name"
  by (simp add: ktColumnsToStruct_def foldl_st_Name ktColumnsToStruct_init_def)

text \<open>The flag of the inner loop is the conjunction over all positions.\<close>

lemma foldl_flag:
  "foldl (\<lambda>same (i, f). if P i f then same else False) b xs =
   (b \<and> list_all (\<lambda>(i, f). P i f) xs)"
  by (induction xs arbitrary: b) auto

lemma list_all_enumerate:
  "list_all (\<lambda>(i, f). P i f) (enumerate 0 fs) = list_all (\<lambda>i. P i (fs ! i)) [0..<length fs]"
  by (auto simp: list_all_iff in_set_enumerate_eq)

lemma sameStruct_shapeMatches:
  "(length (st_Fields s) = length columns \<and> sameStruct x req s columns) =
   shapeMatches x req s columns"
proof -
  have "sameStruct x req s columns =
        list_all (\<lambda>i. sameColumn x req s columns i (st_Fields s ! i))
          [0..<length (st_Fields s)]"
    by (simp add: sameStruct_def foldl_flag list_all_enumerate)
  then show ?thesis
    by (auto simp: shapeMatches_def sameColumn_def Let_def list_all_iff)
qed

lemma findStruct_find:
  "findStruct x req structs columns = find (\<lambda>s. shapeMatches x req s columns) structs"
  by (simp add: findStruct_def sameStruct_shapeMatches)

text \<open>
  A resolved type is never the zero value: its engine is \<^verbatim>\<open>mysql\<close> or
  \<^verbatim>\<open>postgresql\<close>, or its name is \<^verbatim>\<open>Any\<close>.
\<close>

lemma makeType_not_zero: "makeType x req col \<noteq> zero_ktType"
  by (auto simp: makeType_def ktInnerType_def zero_ktType_def split: prod.splits if_splits)

section \<open>Facts about the sample request\<close>

lemma queryIsNamed_ex [simp]: "queryIsNamed (ex_query n c t cols ps) = (n \<noteq> [] \<and> c \<noteq> [])"
  by (simp add: queryIsNamed_def ex_query_def)

lemma ex_query_sel [simp]:
  "pq_Name (ex_query n c t cols ps) = n"
  "pq_Cmd (ex_query n c t cols ps) = c"
  "pq_Text (ex_query n c t cols ps) = t"
  "pq_Columns (ex_query n c t cols ps) = cols"
  "pq_Params (ex_query n c t cols ps) = ps"
  by (simp_all add: ex_query_def)

lemma ex_req_sel [simp]:
  "req_Queries (ex_req e qs) = qs"
  "req_Settings (ex_req e qs) = ex_settings e"
  "req_Catalog (ex_req e qs) = ex_catalog"
  by (simp_all add: ex_req_def)

lemma ex_settings_sel [simp]:
  "set_Engine (ex_settings e) = e"
  "set_Rename (ex_settings e) = Map.empty"
  "EmitExactTableNames (set_Kotlin (ex_settings e)) = True"
  "Package (set_Kotlin (ex_settings e)) = ''db''"
  by (simp_all add: ex_settings_def)

lemma sort_Slice_single [simp]: "sort_Slice key [a] = [a]"
  by (simp add: sort_Slice_def)

lemma ex_ktFormat:
  "ktFormat sample_deps ''models Models.kt'' = ''models Models.kt'' @ [CHR 0x0A]"
  "ktFormat sample_deps ''interface Queries.kt'' = ''interface Queries.kt'' @ [CHR 0x0A]"
  "ktFormat sample_deps ''sql QueriesImpl.kt'' = ''sql QueriesImpl.kt'' @ [CHR 0x0A]"
  by (simp_all add: ktFormat_def sample_simps sample_TrimSpace_def isBlank_def)

lemma ex_Generate_output:
  "buildQueries sample_deps (ex_req e qs) (buildDataClasses sample_deps (ex_req e qs))
     = Inr queries \<Longrightarrow>
   Generate_output sample_deps (ex_req e qs) =
     Inr [(''Models.kt'', ''models Models.kt'' @ [CHR 0x0A]),
          (''Queries.kt'', ''interface Queries.kt'' @ [CHR 0x0A]),
          (''QueriesImpl.kt'', ''sql QueriesImpl.kt'' @ [CHR 0x0A])]"
  by (simp add: Generate_output_def Let_def execute_def sample_simps sample_Execute_def
      ex_ktFormat suffix_def)

section \<open>Type resolution\<close>

lemma withSpecTables_sel [simp]:
  "mysqlType (withSpecTables mt pt x) = spec_engineType mt x"
  "postgresType (withSpecTables mt pt x) = spec_engineType pt x"
  "sdk_DataType (withSpecTables mt pt x) = sdk_DataType x"
  by (simp_all add: withSpecTables_def)

lemma spec_engineType_unknown:
  assumes "sdk_DataType x (col_Type col) \<notin> fst ` set table"
  shows "spec_engineType table x req col = (''Any'', False)"
proof -
  from assms have "map_of table (sdk_DataType x (col_Type col)) = None"
    by (simp add: map_of_eq_None_iff)
  then show ?thesis by (simp add: spec_engineType_def)
qed

lemma ktInnerType_spec:
  "ktInnerType (withSpecTables mt pt x) req col =
   (if set_Engine (req_Settings req) = ''mysql'' then spec_engineType mt x req col
    else if set_Engine (req_Settings req) = ''postgresql'' then spec_engineType pt x req col
    else (''Any'', False))"
  by (simp add: ktInnerType_def)

lemma spec_engineType_raw:
  "col_Type c1 = col_Type c2 \<Longrightarrow>
   spec_engineType table x r1 c1 = spec_engineType table x r2 c2"
  by (simp add: spec_engineType_def)

text \<open>
  Claim C9, with the per-engine tables modelled from the spec. \<^verbatim>\<open>makeType\<close> returns a
  descriptor for every column: its array flag, nullability, raw data type and engine are
  those of the column and of the settings, and it is never the zero value. A raw type that
  the table of the engine knows resolves to the table's entry. What is unknown resolves
  to the fallback and not to an error: for an engine other than \<^verbatim>\<open>mysql\<close> and
  \<^verbatim>\<open>postgresql\<close>, and for a raw type that is not in the table of the engine, the scalar
  name is \<^verbatim>\<open>Any\<close> and the descriptor is not an enum. Any two columns with the same
  engine, raw type, nullability and array flag resolve to equal descriptors (equality of
  all attributes), also in two different requests and whatever else differs between the
  columns.
\<close>

theorem makeType_spec_resolution:
  "kt_IsArray (makeType (withSpecTables mt pt x) req col) = col_IsArray col \<and>
   kt_IsNull (makeType (withSpecTables mt pt x) req col) = (\<not> col_NotNull col) \<and>
   kt_DataType (makeType (withSpecTables mt pt x) req col) = sdk_DataType x (col_Type col) \<and>
   kt_Engine (makeType (withSpecTables mt pt x) req col) = set_Engine (req_Settings req) \<and>
   makeType (withSpecTables mt pt x) req col \<noteq> zero_ktType \<and>
   (set_Engine (req_Settings req) = ''mysql'' \<and>
    map_of mt (sdk_DataType x (col_Type col)) = Some (name, isEnum) \<longrightarrow>
      kt_Name (makeType (withSpecTables mt pt x) req col) = name \<and>
      kt_IsEnum (makeType (withSpecTables mt pt x) req col) = isEnum) \<and>
   (set_Engine (req_Settings req) = ''postgresql'' \<and>
    map_of pt (sdk_DataType x (col_Type col)) = Some (name, isEnum) \<longrightarrow>
      kt_Name (makeType (withSpecTables mt pt x) req col) = name \<and>
      kt_IsEnum (makeType (withSpecTables mt pt x) req col) = isEnum) \<and>
   (set_Engine (req_Settings req) \<noteq> ''mysql'' \<and>
    set_Engine (req_Settings req) \<noteq> ''postgresql'' \<longrightarrow>
      kt_Name (makeType (withSpecTables mt pt x) req col) = ''Any'' \<and>
      \<not> kt_IsEnum (makeType (withSpecTables mt pt x) req col)) \<and>
   (set_Engine (req_Settings req) = ''mysql'' \<and>
    sdk_DataType x (col_Type col) \<notin> fst ` set mt \<longrightarrow>
      kt_Name (makeType (withSpecTables mt pt x) req col) = ''Any'' \<and>
      \<not> kt_IsEnum (makeType (withSpecTables mt pt x) req col)) \<and>
   (set_Engine (req_Settings req) = ''postgresql'' \<and>
    sdk_DataType x (col_Type col) \<notin> fst ` set pt \<longrightarrow>
      kt_Name (makeType (withSpecTables mt pt x) req col) = ''Any'' \<and>
      \<not> kt_IsEnum (makeType (withSpecTables mt pt x) req col)) \<and>
   (set_Engine (req_Settings r1) = set_Engine (req_Settings r2) \<and>
    col_Type c1 = col_Type c2 \<and> col_NotNull c1 = col_NotNull c2 \<and>
    col_IsArray c1 = col_IsArray c2 \<longrightarrow>
      makeType (withSpecTables mt pt x) r1 c1 = makeType (withSpecTables mt pt x) r2 c2)"
proof -
  let ?x = "withSpecTables mt pt x"
  have attributes: "kt_IsArray (makeType ?x req col) = col_IsArray col"
    "kt_IsNull (makeType ?x req col) = (\<not> col_NotNull col)"
    "kt_DataType (makeType ?x req col) = sdk_DataType x (col_Type col)"
    "kt_Engine (makeType ?x req col) = set_Engine (req_Settings req)"
    by (simp_all add: makeType_def split: prod.splits)
  have inner: "kt_Name (makeType ?x req col) = fst (ktInnerType ?x req col)"
    "kt_IsEnum (makeType ?x req col) = snd (ktInnerType ?x req col)"
    by (simp_all add: makeType_def split: prod.splits)
  have known_mysql: "set_Engine (req_Settings req) = ''mysql'' \<and>
    map_of mt (sdk_DataType x (col_Type col)) = Some (name, isEnum) \<longrightarrow>
      kt_Name (makeType ?x req col) = name \<and> kt_IsEnum (makeType ?x req col) = isEnum"
    by (simp add: inner ktInnerType_spec spec_engineType_def)
  have known_postgres: "set_Engine (req_Settings req) = ''postgresql'' \<and>
    map_of pt (sdk_DataType x (col_Type col)) = Some (name, isEnum) \<longrightarrow>
      kt_Name (makeType ?x req col) = name \<and> kt_IsEnum (makeType ?x req col) = isEnum"
    by (simp add: inner ktInnerType_spec spec_engineType_def)
  have unknown_engine: "set_Engine (req_Settings req) \<noteq> ''mysql'' \<and>
    set_Engine (req_Settings req) \<noteq> ''postgresql'' \<longrightarrow>
      kt_Name (makeType ?x req col) = ''Any'' \<and> \<not> kt_IsEnum (makeType ?x req col)"
    by (simp add: inner ktInnerType_spec)
  have unknown_mysql: "set_Engine (req_Settings req) = ''mysql'' \<and>
    sdk_DataType x (col_Type col) \<notin> fst ` set mt \<longrightarrow>
      kt_Name (makeType ?x req col) = ''Any'' \<and> \<not> kt_IsEnum (makeType ?x req col)"
    by (simp add: inner ktInnerType_spec spec_engineType_unknown)
  have unknown_postgres: "set_Engine (req_Settings req) = ''postgresql'' \<and>
    sdk_DataType x (col_Type col) \<notin> fst ` set pt \<longrightarrow>
      kt_Name (makeType ?x req col) = ''Any'' \<and> \<not> kt_IsEnum (makeType ?x req col)"
    by (simp add: inner ktInnerType_spec spec_engineType_unknown)
  have equal: "set_Engine (req_Settings r1) = set_Engine (req_Settings r2) \<and>
    col_Type c1 = col_Type c2 \<and> col_NotNull c1 = col_NotNull c2 \<and>
    col_IsArray c1 = col_IsArray c2 \<longrightarrow>
      makeType ?x r1 c1 = makeType ?x r2 c2"
  proof
    assume a: "set_Engine (req_Settings r1) = set_Engine (req_Settings r2) \<and>
      col_Type c1 = col_Type c2 \<and> col_NotNull c1 = col_NotNull c2 \<and>
      col_IsArray c1 = col_IsArray c2"
    then have "ktInnerType ?x r1 c1 = ktInnerType ?x r2 c2"
      using spec_engineType_raw [of c1 c2 mt x r1 r2] spec_engineType_raw [of c1 c2 pt x r1 r2]
      by (simp add: ktInnerType_spec)
    with a show "makeType ?x r1 c1 = makeType ?x r2 c2"
      by (simp add: makeType_def)
  qed
  from attributes makeType_not_zero [of ?x req col] known_mysql known_postgres unknown_engine
    unknown_mysql unknown_postgres equal
  show ?thesis by blast
qed

theorem makeType_spec_resolution_witness:
  "set_Engine (req_Settings (ex_req ''postgresql'' [])) = ''postgresql'' \<and>
   map_of ex_postgresTable (sdk_DataType sample_deps (col_Type (ex_col ''status'' ''user_status'' True)))
     = Some (''UserStatus'', True) \<and>
   makeType (withSpecTables ex_mysqlTable ex_postgresTable sample_deps) (ex_req ''postgresql'' [])
       (ex_col ''status'' ''user_status'' True) =
     \<lparr>kt_Name = ''UserStatus'', kt_IsEnum = True, kt_IsArray = False, kt_IsNull = False,
      kt_DataType = ''user_status'', kt_Engine = ''postgresql''\<rparr> \<and>
   sdk_DataType sample_deps (col_Type (ex_col ''shape'' ''geometry'' False))
     \<notin> fst ` set ex_postgresTable \<and>
   makeType (withSpecTables ex_mysqlTable ex_postgresTable sample_deps) (ex_req ''postgresql'' [])
       (ex_col ''shape'' ''geometry'' False) =
     \<lparr>kt_Name = ''Any'', kt_IsEnum = False, kt_IsArray = False, kt_IsNull = True,
      kt_DataType = ''geometry'', kt_Engine = ''postgresql''\<rparr> \<and>
   set_Engine (req_Settings (ex_req ''mysql'' [])) = ''mysql'' \<and>
   sdk_DataType sample_deps (col_Type (ex_col ''id'' ''uuid'' True)) \<notin> fst ` set ex_mysqlTable \<and>
   kt_Name (makeType (withSpecTables ex_mysqlTable ex_postgresTable sample_deps)
       (ex_req ''mysql'' []) (ex_col ''id'' ''uuid'' True)) = ''Any'' \<and>
   set_Engine (req_Settings (ex_req ''sqlite'' [])) \<noteq> ''mysql'' \<and>
   set_Engine (req_Settings (ex_req ''sqlite'' [])) \<noteq> ''postgresql'' \<and>
   kt_Name (makeType (withSpecTables ex_mysqlTable ex_postgresTable sample_deps)
       (ex_req ''sqlite'' []) (ex_col ''email'' ''text'' False)) = ''Any'' \<and>
   col_Type (ex_col ''id'' ''uuid'' True) = col_Type (ex_colOf ''tags'' ''owner'' ''uuid'' True) \<and>
   ex_col ''id'' ''uuid'' True \<noteq> ex_colOf ''tags'' ''owner'' ''uuid'' True \<and>
   makeType (withSpecTables ex_mysqlTable ex_postgresTable sample_deps) (ex_req ''postgresql'' [])
       (ex_col ''id'' ''uuid'' True) =
     makeType (withSpecTables ex_mysqlTable ex_postgresTable sample_deps)
       (ex_req ''postgresql'' [ex_exec]) (ex_colOf ''tags'' ''owner'' ''uuid'' True)"
proof -
  let ?x = "withSpecTables ex_mysqlTable ex_postgresTable sample_deps"
  have raw: "sdk_DataType sample_deps (col_Type (ex_col ''status'' ''user_status'' True))
      = ''user_status''"
    "sdk_DataType sample_deps (col_Type (ex_col ''shape'' ''geometry'' False)) = ''geometry''"
    "sdk_DataType sample_deps (col_Type (ex_col ''id'' ''uuid'' True)) = ''uuid''"
    by (simp_all add: sample_simps sample_DataType_def ex_col_def ex_colOf_def)
  have cols: "col_Type (ex_col ''id'' ''uuid'' True) =
      col_Type (ex_colOf ''tags'' ''owner'' ''uuid'' True)"
    "col_NotNull (ex_col ''id'' ''uuid'' True) =
      col_NotNull (ex_colOf ''tags'' ''owner'' ''uuid'' True)"
    "col_IsArray (ex_col ''id'' ''uuid'' True) =
      col_IsArray (ex_colOf ''tags'' ''owner'' ''uuid'' True)"
    "ex_col ''id'' ''uuid'' True \<noteq> ex_colOf ''tags'' ''owner'' ''uuid'' True"
    by (simp_all add: ex_col_def ex_colOf_def)
  have known: "map_of ex_postgresTable ''user_status'' = Some (''UserStatus'', True)"
    by (simp add: ex_postgresTable_def)
  have unknown: "''geometry'' \<notin> fst ` set ex_postgresTable" "''uuid'' \<notin> fst ` set ex_mysqlTable"
    by (simp_all add: ex_postgresTable_def ex_mysqlTable_def)
  have status: "makeType ?x (ex_req ''postgresql'' []) (ex_col ''status'' ''user_status'' True) =
     \<lparr>kt_Name = ''UserStatus'', kt_IsEnum = True, kt_IsArray = False, kt_IsNull = False,
      kt_DataType = ''user_status'', kt_Engine = ''postgresql''\<rparr>"
    using makeType_spec_resolution [of ex_mysqlTable ex_postgresTable sample_deps
        "ex_req ''postgresql'' []" "ex_col ''status'' ''user_status'' True"
        "''UserStatus''" True
        "ex_req ''postgresql'' []" "ex_req ''postgresql'' []"
        "ex_col ''status'' ''user_status'' True" "ex_col ''status'' ''user_status'' True"]
      known
    by (simp add: raw makeType_def ktInnerType_spec spec_engineType_def)
       (simp add: ex_col_def ex_colOf_def)
  have shape: "makeType ?x (ex_req ''postgresql'' []) (ex_col ''shape'' ''geometry'' False) =
     \<lparr>kt_Name = ''Any'', kt_IsEnum = False, kt_IsArray = False, kt_IsNull = True,
      kt_DataType = ''geometry'', kt_Engine = ''postgresql''\<rparr>"
    using unknown(1)
    by (simp add: raw makeType_def ktInnerType_spec spec_engineType_unknown)
       (simp add: ex_col_def ex_colOf_def)
  have fallbacks: "kt_Name (makeType ?x (ex_req ''mysql'' []) (ex_col ''id'' ''uuid'' True)) = ''Any''"
    "kt_Name (makeType ?x (ex_req ''sqlite'' []) (ex_col ''email'' ''text'' False)) = ''Any''"
    using makeType_spec_resolution [of ex_mysqlTable ex_postgresTable sample_deps
        "ex_req ''mysql'' []" "ex_col ''id'' ''uuid'' True" "''Any''" False
        "ex_req ''mysql'' []" "ex_req ''mysql'' []"
        "ex_col ''id'' ''uuid'' True" "ex_col ''id'' ''uuid'' True"]
      makeType_spec_resolution [of ex_mysqlTable ex_postgresTable sample_deps
        "ex_req ''sqlite'' []" "ex_col ''email'' ''text'' False" "''Any''" False
        "ex_req ''sqlite'' []" "ex_req ''sqlite'' []"
        "ex_col ''email'' ''text'' False" "ex_col ''email'' ''text'' False"]
      unknown(2)
    by (simp_all add: raw)
  have same: "makeType ?x (ex_req ''postgresql'' []) (ex_col ''id'' ''uuid'' True) =
     makeType ?x (ex_req ''postgresql'' [ex_exec]) (ex_colOf ''tags'' ''owner'' ''uuid'' True)"
    using makeType_spec_resolution [of ex_mysqlTable ex_postgresTable sample_deps
        "ex_req ''postgresql'' []" "ex_col ''id'' ''uuid'' True" "''UUID''" False
        "ex_req ''postgresql'' []" "ex_req ''postgresql'' [ex_exec]"
        "ex_col ''id'' ''uuid'' True" "ex_colOf ''tags'' ''owner'' ''uuid'' True"]
      cols
    by simp
  have engines: "set_Engine (req_Settings (ex_req ''postgresql'' [])) = ''postgresql''"
    "set_Engine (req_Settings (ex_req ''mysql'' [])) = ''mysql''"
    "set_Engine (req_Settings (ex_req ''sqlite'' [])) \<noteq> ''mysql''"
    "set_Engine (req_Settings (ex_req ''sqlite'' [])) \<noteq> ''postgresql''"
    by simp_all
  have tables: "map_of ex_postgresTable
        (sdk_DataType sample_deps (col_Type (ex_col ''status'' ''user_status'' True)))
      = Some (''UserStatus'', True)"
    "sdk_DataType sample_deps (col_Type (ex_col ''shape'' ''geometry'' False))
      \<notin> fst ` set ex_postgresTable"
    "sdk_DataType sample_deps (col_Type (ex_col ''id'' ''uuid'' True)) \<notin> fst ` set ex_mysqlTable"
    using known unknown by (simp_all add: raw)
  from engines tables status shape fallbacks cols(1) cols(4) same
  show ?thesis by blast
qed

section \<open>The type of a return value\<close>

lemma queryRet_Type:
  assumes "columns \<noteq> []"
  shows "\<exists>t. QueryValue_Type (queryRet x req structs className columns) = Inr t"
proof -
  from assms have "length columns = 1 \<or> length columns > 1"
    by (cases columns) auto
  then show ?thesis
    by (auto simp: queryRet_def QueryValue_Type_def makeType_not_zero split: option.splits)
qed

lemma Ret_compileQuery:
  "Ret (compileQuery x req structs query) =
   queryRet x req structs (strings_Title x (pq_Name query)) (pq_Columns query)"
  by (simp add: compileQuery_def Let_def)

lemma ClassName_compileQuery:
  "ClassName (compileQuery x req structs query) = strings_Title x (pq_Name query)"
  by (simp add: compileQuery_def Let_def)

text \<open>
  Claim C10. \<^verbatim>\<open>QueryValue.Type\<close> panics exactly when the scalar type is the zero value
  and the struct reference is \<^verbatim>\<open>nil\<close>. A query with at least one result column never
  reaches the panic: its return value has a type or a struct. Hence a descriptor in the
  result of \<^verbatim>\<open>buildQueries\<close> whose \<^verbatim>\<open>Type\<close> panics comes from a query without result
  columns.
\<close>

theorem QueryValue_Type_panic:
  "((\<exists>m. QueryValue_Type v = Inl m) = (qv_Typ v = zero_ktType \<and> qv_Struct v = None)) \<and>
   (pq_Columns query \<noteq> [] \<longrightarrow>
      (\<exists>t. QueryValue_Type (Ret (compileQuery x req structs query)) = Inr t)) \<and>
   (buildQueries x req structs = Inr qs \<and> gq \<in> set qs \<and>
    (\<exists>m. QueryValue_Type (Ret gq) = Inl m) \<longrightarrow>
      (\<exists>q \<in> set (req_Queries req).
         gq = compileQuery x req structs q \<and> pq_Columns q = []))"
proof (intro conjI impI)
  show "(\<exists>m. QueryValue_Type v = Inl m) = (qv_Typ v = zero_ktType \<and> qv_Struct v = None)"
    by (auto simp: QueryValue_Type_def split: option.splits)
next
  assume "pq_Columns query \<noteq> []"
  then show "\<exists>t. QueryValue_Type (Ret (compileQuery x req structs query)) = Inr t"
    by (simp add: Ret_compileQuery queryRet_Type)
next
  assume a: "buildQueries x req structs = Inr qs \<and> gq \<in> set qs \<and>
    (\<exists>m. QueryValue_Type (Ret gq) = Inl m)"
  then obtain q where q: "q \<in> set (req_Queries req)" "gq = compileQuery x req structs q"
    using set_buildQueries [of x req structs qs] by auto
  have "pq_Columns q = []"
  proof (rule ccontr)
    assume "pq_Columns q \<noteq> []"
    then have "\<exists>t. QueryValue_Type (Ret gq) = Inr t"
      by (simp add: q Ret_compileQuery queryRet_Type)
    with a show False by auto
  qed
  with q show "\<exists>q \<in> set (req_Queries req).
         gq = compileQuery x req structs q \<and> pq_Columns q = []"
    by blast
qed

theorem QueryValue_Type_panic_witness:
  "QueryValue_Type zero_QueryValue = Inl ''no type for QueryValue: '' \<and>
   pq_Columns ex_getEmail \<noteq> [] \<and>
   QueryValue_Type (Ret (compileQuery sample_deps (ex_req ''postgresql'' [ex_exec]) [] ex_getEmail))
     = Inr ''String?'' \<and>
   buildQueries sample_deps (ex_req ''postgresql'' [ex_exec]) [] =
     Inr [compileQuery sample_deps (ex_req ''postgresql'' [ex_exec]) [] ex_exec] \<and>
   QueryValue_Type (Ret (compileQuery sample_deps (ex_req ''postgresql'' [ex_exec]) [] ex_exec))
     = Inl ''no type for QueryValue: '' \<and>
   ex_exec \<in> set (req_Queries (ex_req ''postgresql'' [ex_exec])) \<and>
   pq_Columns ex_exec = []"
proof -
  have build: "buildQueries sample_deps (ex_req ''postgresql'' [ex_exec]) [] =
     Inr [compileQuery sample_deps (ex_req ''postgresql'' [ex_exec]) [] ex_exec]"
    by (simp add: buildQueries_eq ex_exec_def sample_simps)
  have scalar: "QueryValue_Type
      (Ret (compileQuery sample_deps (ex_req ''postgresql'' [ex_exec]) [] ex_getEmail))
     = Inr ''String?''"
    by (simp add: Ret_compileQuery queryRet_def ex_getEmail_def QueryValue_Type_def
        makeType_def ktInnerType_def sample_simps sample_engineType_def sample_DataType_def
        ex_col_def ex_colOf_def zero_ktType_def ktType_String_def)
  have empty: "QueryValue_Type
      (Ret (compileQuery sample_deps (ex_req ''postgresql'' [ex_exec]) [] ex_exec))
     = Inl ''no type for QueryValue: ''"
    by (simp add: Ret_compileQuery queryRet_def ex_exec_def QueryValue_Type_def
        zero_QueryValue_def)
  show ?thesis
    using QueryValue_Type_panic [of zero_QueryValue ex_getEmail sample_deps
        "ex_req ''postgresql'' [ex_exec]" "[]"
        "[compileQuery sample_deps (ex_req ''postgresql'' [ex_exec]) [] ex_exec]"
        "compileQuery sample_deps (ex_req ''postgresql'' [ex_exec]) [] ex_exec"]
      build scalar empty
    by (simp add: QueryValue_Type_def zero_QueryValue_def ex_exec_def ex_getEmail_def)
qed

section \<open>Bulk copy\<close>

text \<open>
  Claim C3, as amended. If a query of the request with a non-empty name has the bulk-copy
  command kind (\<^verbatim>\<open>metadata.CmdCopyFrom\<close>, a non-empty string), then \<^verbatim>\<open>buildQueries\<close>
  returns the error \<^verbatim>\<open>Support for CopyFrom in Kotlin is not implemented\<close> and no query
  list, whatever the other queries are, and the only result of \<^verbatim>\<open>Generate\<close> is that error,
  without a response.
\<close>

theorem copyFrom_aborts:
  "query \<in> set (req_Queries req) \<and> pq_Name query \<noteq> [] \<and>
   pq_Cmd query = metadata_CmdCopyFrom x \<and> metadata_CmdCopyFrom x \<noteq> [] \<longrightarrow>
     buildQueries x req structs = Inl ''Support for CopyFrom in Kotlin is not implemented'' \<and>
     Generate x req resp =
       (resp = Inl ''Support for CopyFrom in Kotlin is not implemented'')"
proof
  assume a: "query \<in> set (req_Queries req) \<and> pq_Name query \<noteq> [] \<and>
   pq_Cmd query = metadata_CmdCopyFrom x \<and> metadata_CmdCopyFrom x \<noteq> []"
  then have "\<exists>q \<in> set (req_Queries req). queryIsNamed q \<and> pq_Cmd q = metadata_CmdCopyFrom x"
    by (auto simp: queryIsNamed_def)
  then have "\<And>structs. buildQueries x req structs =
      Inl ''Support for CopyFrom in Kotlin is not implemented''"
    by (simp add: buildQueries_eq)
  then show "buildQueries x req structs =
       Inl ''Support for CopyFrom in Kotlin is not implemented'' \<and>
     Generate x req resp =
       (resp = Inl ''Support for CopyFrom in Kotlin is not implemented'')"
    by (simp add: Generate_error)
qed

theorem copyFrom_aborts_witness:
  "ex_copy ''Load'' \<in> set (req_Queries (ex_req ''postgresql'' [ex_exec, ex_copy ''Load''])) \<and>
   pq_Name (ex_copy ''Load'') \<noteq> [] \<and>
   pq_Cmd (ex_copy ''Load'') = metadata_CmdCopyFrom sample_deps \<and>
   metadata_CmdCopyFrom sample_deps \<noteq> [] \<and>
   buildQueries sample_deps (ex_req ''postgresql'' [ex_exec, ex_copy ''Load'']) [] =
     Inl ''Support for CopyFrom in Kotlin is not implemented'' \<and>
   Generate sample_deps (ex_req ''postgresql'' [ex_exec, ex_copy ''Load''])
     (Inl ''Support for CopyFrom in Kotlin is not implemented'') \<and>
   \<not> Generate sample_deps (ex_req ''postgresql'' [ex_exec, ex_copy ''Load'']) (Inr [])"
  using copyFrom_aborts [of "ex_copy ''Load''" "ex_req ''postgresql'' [ex_exec, ex_copy ''Load'']"
      sample_deps "[]" "Inl ''Support for CopyFrom in Kotlin is not implemented''"]
    copyFrom_aborts [of "ex_copy ''Load''" "ex_req ''postgresql'' [ex_exec, ex_copy ''Load'']"
      sample_deps "[]" "Inr []"]
  by (simp add: ex_copy_def sample_simps)

text \<open>
  The claim as it is written fails for a bulk-copy query without a name: the guard on the
  name comes first, the query is skipped, and the files are generated.
\<close>

theorem copyFrom_unnamed_counterexample:
  "ex_copy [] \<in> set (req_Queries (ex_req ''postgresql'' [ex_copy []])) \<and>
   pq_Cmd (ex_copy []) = metadata_CmdCopyFrom sample_deps \<and>
   buildQueries sample_deps (ex_req ''postgresql'' [ex_copy []])
     (buildDataClasses sample_deps (ex_req ''postgresql'' [ex_copy []])) = Inr [] \<and>
   Generate sample_deps (ex_req ''postgresql'' [ex_copy []]) (Inr ex_files)"
proof -
  have build: "buildQueries sample_deps (ex_req ''postgresql'' [ex_copy []])
     (buildDataClasses sample_deps (ex_req ''postgresql'' [ex_copy []])) = Inr []"
    by (simp add: buildQueries_eq ex_copy_def sort_Slice_def)
  show ?thesis
    using build ex_Generate_output [OF build]
    by (simp add: Generate_def ex_files_def ex_copy_def sample_simps)
qed

section \<open>Return values of queries\<close>

lemmas sample_names =
  memberName_def dataClassName_def sample_simps sample_LowerTitle_def sample_Title_def
  toUpperByte_def toLowerByte_def

lemmas sample_types =
  makeType_def ktInnerType_def sample_simps sample_engineType_def sample_DataType_def
  ex_col_def ex_colOf_def ex_kt_def

lemma ex_buildDataClasses:
  "e = ''mysql'' \<or> e = ''postgresql'' \<Longrightarrow>
   buildDataClasses sample_deps (ex_req e qs) = [ex_Tags e, ex_Users e]"
  by (auto simp: buildDataClasses_def buildDataClass_def ex_catalog_def isSystemSchema_def
      sort_Slice_def sample_names sample_types ex_Users_def ex_Tags_def)

lemma ex_shape_Users:
  "e = ''mysql'' \<or> e = ''postgresql'' \<Longrightarrow>
   shapeMatches sample_deps (ex_req e qs) (ex_Users e) (pq_Columns ex_getUser)"
  by (auto simp: shapeMatches_def ex_getUser_def ex_Users_def ktColumnName_def sample_names
      sample_types sample_SameTableName_def ex_catalog_def upt_rec [of 0] upt_rec [of 1])


lemma ex_shape_Tags_getUser:
  "\<not> shapeMatches sample_deps (ex_req e qs) (ex_Tags e) (pq_Columns ex_getUser)"
  by (simp add: shapeMatches_def ex_getUser_def ex_Tags_def)

lemma ex_shape_Tags_getTag:
  "e = ''mysql'' \<or> e = ''postgresql'' \<Longrightarrow>
   shapeMatches sample_deps (ex_req e qs) (ex_Tags e) (pq_Columns ex_getTag)"
  by (auto simp: shapeMatches_def ex_getTag_def ex_Tags_def ktColumnName_def sample_names
      sample_types sample_SameTableName_def ex_catalog_def)

lemma ex_shape_listEmails:
  "\<not> shapeMatches sample_deps (ex_req e qs) (ex_Tags e) (pq_Columns ex_listEmails)"
  "\<not> shapeMatches sample_deps (ex_req e qs) (ex_Users e) (pq_Columns ex_listEmails)"
  by (simp_all add: shapeMatches_def ex_listEmails_def ex_Users_def ex_Tags_def ktColumnName_def
      sample_names ex_col_def ex_colOf_def upt_rec [of 0] upt_rec [of 1])

lemma find_SomeD: "find P xs = Some x \<Longrightarrow> x \<in> set xs \<and> P x"
  by (induction xs) (auto split: if_splits)

text \<open>
  Claim C4. The return value of a compiled query follows the number of result columns.
  Without result columns it is the empty descriptor. With exactly one it is the scalar type
  of that column and no struct. With two or more it is a struct: the first struct of the
  given list whose shape matches, not newly emitted; or, when none matches, the struct
  built from the columns, named by the class name of the query with the suffix \<^verbatim>\<open>Row\<close>,
  newly emitted. The descriptors that \<^verbatim>\<open>buildQueries\<close> returns are the compiled queries
  of the request that have a name and a command.
\<close>

theorem return_descriptor_by_column_count:
  "gq = compileQuery x req structs query \<Longrightarrow>
   (pq_Columns query = [] \<longrightarrow> Ret gq = zero_QueryValue \<and> QueryValue_isEmpty (Ret gq)) \<and>
   (length (pq_Columns query) = 1 \<longrightarrow>
      Ret gq =
        \<lparr>qv_Emit = False, qv_Name = ''results'', qv_Struct = None,
         qv_Typ = makeType x req (pq_Columns query ! 0), qv_JDBCParamBindCount = 0\<rparr> \<and>
      \<not> QueryValue_IsStruct (Ret gq) \<and> qv_Typ (Ret gq) \<noteq> zero_ktType) \<and>
   (2 \<le> length (pq_Columns query) \<longrightarrow>
      qv_Typ (Ret gq) = zero_ktType \<and> QueryValue_IsStruct (Ret gq) \<and>
      (case find (\<lambda>s. shapeMatches x req s (pq_Columns query)) structs of
         Some s \<Rightarrow> s \<in> set structs \<and> qv_Struct (Ret gq) = Some s \<and> \<not> qv_Emit (Ret gq)
       | None \<Rightarrow>
           qv_Struct (Ret gq) =
             Some (ktColumnsToStruct x req (ClassName gq @ ''Row'')
                     (map (\<lambda>(i, c). \<lparr>gc_id = int i, gc_Column = c\<rparr>)
                        (enumerate 0 (pq_Columns query)))
                     ktColumnName) \<and>
           (\<exists>s. qv_Struct (Ret gq) = Some s \<and> st_Name s = ClassName gq @ ''Row'') \<and>
           qv_Emit (Ret gq))) \<and>
   (buildQueries x req structs = Inr qs \<longrightarrow>
      set qs = compileQuery x req structs ` {q \<in> set (req_Queries req). queryIsNamed q})"
proof (intro conjI impI)
  show "buildQueries x req structs = Inr qs \<Longrightarrow>
      set qs = compileQuery x req structs ` {q \<in> set (req_Queries req). queryIsNamed q}"
    by (rule set_buildQueries)
next
  assume gq: "gq = compileQuery x req structs query"
  {
    assume "pq_Columns query = []"
    then show "Ret gq = zero_QueryValue" "QueryValue_isEmpty (Ret gq)"
      by (simp_all add: gq Ret_compileQuery queryRet_def QueryValue_isEmpty_def
          zero_QueryValue_def)
  next
    assume "length (pq_Columns query) = 1"
    then show "Ret gq =
        \<lparr>qv_Emit = False, qv_Name = ''results'', qv_Struct = None,
         qv_Typ = makeType x req (pq_Columns query ! 0), qv_JDBCParamBindCount = 0\<rparr>"
      "\<not> QueryValue_IsStruct (Ret gq)" "qv_Typ (Ret gq) \<noteq> zero_ktType"
      by (simp_all add: gq Ret_compileQuery queryRet_def QueryValue_IsStruct_def
          makeType_not_zero)
  next
    assume two: "2 \<le> length (pq_Columns query)"
    then show "qv_Typ (Ret gq) = zero_ktType" "QueryValue_IsStruct (Ret gq)"
      by (simp_all add: gq Ret_compileQuery queryRet_def QueryValue_IsStruct_def
          split: option.splits)
    show "case find (\<lambda>s. shapeMatches x req s (pq_Columns query)) structs of
         Some s \<Rightarrow> s \<in> set structs \<and> qv_Struct (Ret gq) = Some s \<and> \<not> qv_Emit (Ret gq)
       | None \<Rightarrow>
           qv_Struct (Ret gq) =
             Some (ktColumnsToStruct x req (ClassName gq @ ''Row'')
                     (map (\<lambda>(i, c). \<lparr>gc_id = int i, gc_Column = c\<rparr>)
                        (enumerate 0 (pq_Columns query)))
                     ktColumnName) \<and>
           (\<exists>s. qv_Struct (Ret gq) = Some s \<and> st_Name s = ClassName gq @ ''Row'') \<and>
           qv_Emit (Ret gq)"
      using two
      by (auto simp: gq Ret_compileQuery ClassName_compileQuery queryRet_def findStruct_find
          dest: find_SomeD split: option.splits)
  }
qed

lemma ex_find_getUser:
  "find (\<lambda>s. shapeMatches sample_deps (ex_req ''postgresql'' qs) s (pq_Columns ex_getUser))
     [ex_Tags ''postgresql'', ex_Users ''postgresql''] = Some (ex_Users ''postgresql'')"
  by (simp add: ex_shape_Tags_getUser ex_shape_Users)

lemma ex_find_listEmails:
  "find (\<lambda>s. shapeMatches sample_deps (ex_req ''postgresql'' qs) s (pq_Columns ex_listEmails))
     [ex_Tags ''postgresql'', ex_Users ''postgresql''] = None"
  by (simp add: ex_shape_listEmails)

theorem return_descriptor_by_column_count_witness:
  "pq_Columns ex_exec = [] \<and>
   Ret (compileQuery sample_deps (ex_req ''postgresql'' [ex_exec]) [ex_Tags ''postgresql'', ex_Users ''postgresql''] ex_exec) = zero_QueryValue \<and>
   length (pq_Columns ex_getEmail) = 1 \<and>
   Ret (compileQuery sample_deps (ex_req ''postgresql'' [ex_exec]) [ex_Tags ''postgresql'', ex_Users ''postgresql''] ex_getEmail) =
     \<lparr>qv_Emit = False, qv_Name = ''results'', qv_Struct = None,
      qv_Typ = ex_kt ''postgresql'' ''String'' ''text'' True, qv_JDBCParamBindCount = 0\<rparr> \<and>
   2 \<le> length (pq_Columns ex_getUser) \<and>
   qv_Struct (Ret (compileQuery sample_deps (ex_req ''postgresql'' [ex_exec]) [ex_Tags ''postgresql'', ex_Users ''postgresql''] ex_getUser)) = Some (ex_Users ''postgresql'') \<and>
   \<not> qv_Emit (Ret (compileQuery sample_deps (ex_req ''postgresql'' [ex_exec]) [ex_Tags ''postgresql'', ex_Users ''postgresql''] ex_getUser)) \<and>
   2 \<le> length (pq_Columns ex_listEmails) \<and>
   (\<exists>s. qv_Struct (Ret (compileQuery sample_deps (ex_req ''postgresql'' [ex_exec]) [ex_Tags ''postgresql'', ex_Users ''postgresql''] ex_listEmails)) = Some s \<and> st_Name s = ''ListEmailsRow'') \<and>
   qv_Emit (Ret (compileQuery sample_deps (ex_req ''postgresql'' [ex_exec]) [ex_Tags ''postgresql'', ex_Users ''postgresql''] ex_listEmails)) \<and>
   buildQueries sample_deps (ex_req ''postgresql'' [ex_exec])
       [ex_Tags ''postgresql'', ex_Users ''postgresql''] =
     Inr [compileQuery sample_deps (ex_req ''postgresql'' [ex_exec])
            [ex_Tags ''postgresql'', ex_Users ''postgresql''] ex_exec] \<and>
   set [compileQuery sample_deps (ex_req ''postgresql'' [ex_exec])
            [ex_Tags ''postgresql'', ex_Users ''postgresql''] ex_exec] =
     compileQuery sample_deps (ex_req ''postgresql'' [ex_exec])
       [ex_Tags ''postgresql'', ex_Users ''postgresql''] `
     {q \<in> set (req_Queries (ex_req ''postgresql'' [ex_exec])). queryIsNamed q}"
proof -
  have build: "buildQueries sample_deps (ex_req ''postgresql'' [ex_exec])
       [ex_Tags ''postgresql'', ex_Users ''postgresql''] =
     Inr [compileQuery sample_deps (ex_req ''postgresql'' [ex_exec])
            [ex_Tags ''postgresql'', ex_Users ''postgresql''] ex_exec]"
    by (simp add: buildQueries_eq ex_exec_def sample_simps)
  have title: "ClassName (compileQuery sample_deps (ex_req ''postgresql'' [ex_exec]) [ex_Tags ''postgresql'', ex_Users ''postgresql''] ex_listEmails) = ''ListEmails''"
    by (simp add: ClassName_compileQuery ex_listEmails_def sample_simps sample_Title_def toUpperByte_def)
  have scalar: "makeType sample_deps (ex_req ''postgresql'' [ex_exec]) (pq_Columns ex_getEmail ! 0) = ex_kt ''postgresql'' ''String'' ''text'' True"
    by (simp add: ex_getEmail_def sample_types)
  show ?thesis
    using return_descriptor_by_column_count [OF refl, of ex_exec sample_deps "ex_req ''postgresql'' [ex_exec]" "[ex_Tags ''postgresql'', ex_Users ''postgresql'']"
        "[compileQuery sample_deps (ex_req ''postgresql'' [ex_exec])
            [ex_Tags ''postgresql'', ex_Users ''postgresql''] ex_exec]"] build
      return_descriptor_by_column_count [OF refl, of ex_getEmail sample_deps "ex_req ''postgresql'' [ex_exec]" "[ex_Tags ''postgresql'', ex_Users ''postgresql'']"]
      return_descriptor_by_column_count [OF refl, of ex_getUser sample_deps "ex_req ''postgresql'' [ex_exec]" "[ex_Tags ''postgresql'', ex_Users ''postgresql'']"]
      return_descriptor_by_column_count [OF refl, of ex_listEmails sample_deps "ex_req ''postgresql'' [ex_exec]" "[ex_Tags ''postgresql'', ex_Users ''postgresql'']"]
    unfolding ex_find_getUser ex_find_listEmails title scalar
    by (simp add: ex_exec_def ex_getEmail_def ex_getUser_def ex_listEmails_def)
qed



lemma find_exists: "x \<in> set xs \<Longrightarrow> P x \<Longrightarrow> \<exists>y. find P xs = Some y"
  by (induction xs) auto

lemma find_unique:
  assumes "x \<in> set xs" and "P x" and "\<And>y. y \<in> set xs \<Longrightarrow> P y \<Longrightarrow> y = x"
  shows "find P xs = Some x"
proof -
  from assms(1,2) obtain y where y: "find P xs = Some y"
    using find_exists by fastforce
  then have "y \<in> set xs \<and> P y"
    by (rule find_SomeD)
  then have "y = x"
    using assms(3) by blast
  with y show ?thesis by simp
qed

text \<open>
  Claim C2, as amended. For a compiled query with two or more result columns whose shape
  matches a struct of the list (as many fields as columns; at every position the same
  field name, an equal type descriptor, and the column's table is the struct's table by
  \<^verbatim>\<open>sdk.SameTableName\<close> against the default schema), the return value references a
  matching struct of the list, the first one, and is not newly emitted; when the given
  struct is the only match, it is that struct.
\<close>

theorem matching_struct_is_reused:
  "gq = compileQuery x req structs query \<Longrightarrow>
   s \<in> set structs \<and> shapeMatches x req s (pq_Columns query) \<and>
   2 \<le> length (pq_Columns query) \<longrightarrow>
     \<not> qv_Emit (Ret gq) \<and>
     qv_Struct (Ret gq) = find (\<lambda>s. shapeMatches x req s (pq_Columns query)) structs \<and>
     (\<exists>s'. qv_Struct (Ret gq) = Some s' \<and> s' \<in> set structs \<and>
           shapeMatches x req s' (pq_Columns query)) \<and>
     ((\<forall>s' \<in> set structs. shapeMatches x req s' (pq_Columns query) \<longrightarrow> s' = s) \<longrightarrow>
        qv_Struct (Ret gq) = Some s)"
proof
  assume gq: "gq = compileQuery x req structs query"
  assume a: "s \<in> set structs \<and> shapeMatches x req s (pq_Columns query) \<and>
   2 \<le> length (pq_Columns query)"
  then obtain s' where s': "find (\<lambda>s. shapeMatches x req s (pq_Columns query)) structs = Some s'"
    using find_exists [of s structs "\<lambda>s. shapeMatches x req s (pq_Columns query)"] by blast
  from a have ret: "Ret gq =
      \<lparr>qv_Emit = False, qv_Name = ''results'', qv_Struct = Some s',
       qv_Typ = zero_ktType, qv_JDBCParamBindCount = 0\<rparr>"
    by (simp add: gq Ret_compileQuery queryRet_def findStruct_find s')
  have member: "s' \<in> set structs \<and> shapeMatches x req s' (pq_Columns query)"
    using find_SomeD [OF s'] .
  have unique: "(\<forall>s' \<in> set structs. shapeMatches x req s' (pq_Columns query) \<longrightarrow> s' = s) \<longrightarrow>
        qv_Struct (Ret gq) = Some s"
  proof
    assume "\<forall>s' \<in> set structs. shapeMatches x req s' (pq_Columns query) \<longrightarrow> s' = s"
    with member have "s' = s" by blast
    then show "qv_Struct (Ret gq) = Some s" by (simp add: ret)
  qed
  have "\<not> qv_Emit (Ret gq)"
    and "qv_Struct (Ret gq) = find (\<lambda>s. shapeMatches x req s (pq_Columns query)) structs"
    and "\<exists>s'. qv_Struct (Ret gq) = Some s' \<and> s' \<in> set structs \<and>
           shapeMatches x req s' (pq_Columns query)"
    using member by (simp_all add: ret s')
  with unique show "\<not> qv_Emit (Ret gq) \<and>
     qv_Struct (Ret gq) = find (\<lambda>s. shapeMatches x req s (pq_Columns query)) structs \<and>
     (\<exists>s'. qv_Struct (Ret gq) = Some s' \<and> s' \<in> set structs \<and>
           shapeMatches x req s' (pq_Columns query)) \<and>
     ((\<forall>s' \<in> set structs. shapeMatches x req s' (pq_Columns query) \<longrightarrow> s' = s) \<longrightarrow>
        qv_Struct (Ret gq) = Some s)"
    by blast
qed


theorem matching_struct_is_reused_witness:
  "ex_Users ''postgresql'' \<in> set (buildDataClasses sample_deps (ex_req ''postgresql'' [ex_getUser])) \<and>
   shapeMatches sample_deps (ex_req ''postgresql'' [ex_getUser]) (ex_Users ''postgresql'')
     (pq_Columns ex_getUser) \<and>
   2 \<le> length (pq_Columns ex_getUser) \<and>
   \<not> qv_Emit (Ret (compileQuery sample_deps (ex_req ''postgresql'' [ex_getUser])
      (buildDataClasses sample_deps (ex_req ''postgresql'' [ex_getUser])) ex_getUser)) \<and>
   qv_Struct (Ret (compileQuery sample_deps (ex_req ''postgresql'' [ex_getUser])
      (buildDataClasses sample_deps (ex_req ''postgresql'' [ex_getUser])) ex_getUser))
     = Some (ex_Users ''postgresql'')"
proof -
  have structs: "buildDataClasses sample_deps (ex_req ''postgresql'' [ex_getUser]) =
      [ex_Tags ''postgresql'', ex_Users ''postgresql'']"
    by (simp add: ex_buildDataClasses)
  have hyps: "ex_Users ''postgresql'' \<in>
      set (buildDataClasses sample_deps (ex_req ''postgresql'' [ex_getUser])) \<and>
    shapeMatches sample_deps (ex_req ''postgresql'' [ex_getUser]) (ex_Users ''postgresql'')
      (pq_Columns ex_getUser) \<and>
    2 \<le> length (pq_Columns ex_getUser)"
    using ex_shape_Users [of "''postgresql''" "[ex_getUser]"]
    by (simp add: structs) (simp add: ex_getUser_def)
  have "\<not> qv_Emit (Ret (compileQuery sample_deps (ex_req ''postgresql'' [ex_getUser])
      (buildDataClasses sample_deps (ex_req ''postgresql'' [ex_getUser])) ex_getUser))"
    and "qv_Struct (Ret (compileQuery sample_deps (ex_req ''postgresql'' [ex_getUser])
      (buildDataClasses sample_deps (ex_req ''postgresql'' [ex_getUser])) ex_getUser)) =
      find (\<lambda>s. shapeMatches sample_deps (ex_req ''postgresql'' [ex_getUser]) s
              (pq_Columns ex_getUser))
        (buildDataClasses sample_deps (ex_req ''postgresql'' [ex_getUser]))"
    using matching_struct_is_reused [OF refl, of "ex_Users ''postgresql''"
      "buildDataClasses sample_deps (ex_req ''postgresql'' [ex_getUser])" sample_deps
      "ex_req ''postgresql'' [ex_getUser]" ex_getUser] hyps
    by blast+
  then show ?thesis
    using hyps by (simp add: structs ex_shape_Tags_getUser)
qed

text \<open>
  The claim as it is written fails with a single result column: the branch for one column
  comes first and returns the scalar type, also when a table with one column matches.
\<close>

theorem single_column_match_counterexample:
  "ex_Tags ''postgresql'' \<in> set (buildDataClasses sample_deps (ex_req ''postgresql'' [ex_getTag])) \<and>
   shapeMatches sample_deps (ex_req ''postgresql'' [ex_getTag]) (ex_Tags ''postgresql'')
     (pq_Columns ex_getTag) \<and>
   queryIsNamed ex_getTag \<and>
   qv_Struct (Ret (compileQuery sample_deps (ex_req ''postgresql'' [ex_getTag])
      (buildDataClasses sample_deps (ex_req ''postgresql'' [ex_getTag])) ex_getTag)) = None"
  using ex_shape_Tags_getTag [of "''postgresql''" "[ex_getTag]"]
  by (simp add: ex_buildDataClasses Ret_compileQuery queryRet_def) (simp add: ex_getTag_def)

section \<open>Placeholder rewriting\<close>

lemma isDigit_isWordChar: "isDigit c \<Longrightarrow> isWordChar c"
  by (auto simp: isDigit_def isWordChar_def isIdentChar_def)

lemma dollar_not_word [simp]: "\<not> isWordChar (CHR ''$'')"
  by (simp add: isWordChar_def isIdentChar_def)

lemma takeWhile_digits_boundary:
  "X = [] \<or> \<not> isWordChar (hd X) \<Longrightarrow> takeWhile isDigit X = []"
  by (cases X) (auto dest: isDigit_isWordChar)

lemma dropWhile_digits_boundary:
  "X = [] \<or> \<not> isWordChar (hd X) \<Longrightarrow> dropWhile isDigit X = X"
  by (cases X) (auto dest: isDigit_isWordChar)

lemma takeWhile_digits_append:
  "X = [] \<or> \<not> isWordChar (hd X) \<Longrightarrow> takeWhile isDigit (cs @ X) = takeWhile isDigit cs"
  by (induction cs) (simp_all add: takeWhile_digits_boundary)

lemma dropWhile_digits_append:
  "X = [] \<or> \<not> isWordChar (hd X) \<Longrightarrow> dropWhile isDigit (cs @ X) = dropWhile isDigit cs @ X"
  by (induction cs) (simp_all add: dropWhile_digits_boundary)

lemma boundary_case_append:
  "X = [] \<or> \<not> isWordChar (hd X) \<Longrightarrow>
   (case ys @ X of [] \<Rightarrow> True | a # _ \<Rightarrow> \<not> isWordChar a) =
   (case ys of [] \<Rightarrow> True | a # _ \<Rightarrow> \<not> isWordChar a)"
  by (cases ys; cases X) simp_all

lemma placeholderDigits_append:
  assumes "X = [] \<or> \<not> isWordChar (hd X)"
  shows "placeholderDigits p (c # cs @ X) = placeholderDigits p (c # cs)"
proof -
  have "(case dropWhile isDigit cs @ X of [] \<Rightarrow> True | a # _ \<Rightarrow> \<not> isWordChar a) =
        (case dropWhile isDigit cs of [] \<Rightarrow> True | a # _ \<Rightarrow> \<not> isWordChar a)"
    using assms by (rule boundary_case_append)
  then show ?thesis
    using assms
    by (simp add: placeholderDigits_def takeWhile_digits_append dropWhile_digits_append Let_def)
qed

lemma placeholderDigits_le:
  "placeholderDigits p (c # cs) = Some k \<Longrightarrow> k \<le> length cs"
  by (auto simp: placeholderDigits_def Let_def length_takeWhile_le split: if_splits)

lemma scan_append:
  "X = [] \<or> \<not> isWordChar (hd X) \<Longrightarrow>
   postgresPlaceholderRegexp_ReplaceAllString p (pre @ X) repl =
   postgresPlaceholderRegexp_ReplaceAllString p pre repl @
   postgresPlaceholderRegexp_ReplaceAllString (if pre = [] then p else Some (last pre)) X repl"
proof (induction p pre repl rule: postgresPlaceholderRegexp_ReplaceAllString.induct)
  case (1 prev repl)
  show ?case by simp
next
  case (2 prev c cs repl)
  show ?case
  proof (cases "placeholderDigits prev (c # cs)")
    case None
    from 2(1) [OF None 2(3)] None 2(3) show ?thesis
      by (simp add: placeholderDigits_append)
  next
    case (Some k)
    then have k: "k \<le> length cs" by (rule placeholderDigits_le)
    have lastc: "(if drop k cs = [] then Some (last (c # take k cs)) else Some (last (drop k cs)))
        = Some (last (c # cs))"
    proof (cases "drop k cs = []")
      case True
      then have "take k cs = cs" by simp
      with True show ?thesis by simp
    next
      case False
      then have "last (drop k cs) = last cs" by (simp add: last_drop)
      with False show ?thesis by auto
    qed
    from 2(2) [OF Some 2(3)] Some k lastc 2(3) show ?thesis
      by (simp add: placeholderDigits_append)
  qed
qed

lemma placeholderDigits_prev:
  "\<not> isWordChar c \<Longrightarrow> placeholderDigits (Some c) s = placeholderDigits None s"
  by (cases s) (simp_all add: placeholderDigits_def)

lemma scan_prev:
  "\<not> isWordChar c \<Longrightarrow>
   postgresPlaceholderRegexp_ReplaceAllString (Some c) s repl =
   postgresPlaceholderRegexp_ReplaceAllString None s repl"
  by (cases s) (simp_all add: placeholderDigits_prev)

lemma placeholderDigits_token:
  assumes "ds \<noteq> []" "list_all isDigit ds" "post = [] \<or> \<not> isWordChar (hd post)"
  shows "placeholderDigits None (CHR ''$'' # ds @ post) = Some (length ds)"
proof -
  have t: "takeWhile isDigit (ds @ post) = ds"
    using assms(2,3) by (simp add: takeWhile_digits_boundary list_all_iff)
  have d: "dropWhile isDigit (ds @ post) = post"
    using assms(2,3) by (simp add: dropWhile_digits_boundary list_all_iff)
  have b: "(case post of [] \<Rightarrow> True | a # _ \<Rightarrow> \<not> isWordChar a)"
    using assms(3) by (cases post) simp_all
  show ?thesis
    using assms(1) by (simp add: placeholderDigits_def t d b)
qed

lemma scan_token:
  assumes "ds \<noteq> []" "list_all isDigit ds" "post = [] \<or> \<not> isWordChar (hd post)"
  shows "postgresPlaceholderRegexp_ReplaceAllString None (CHR ''$'' # ds @ post) repl =
         repl @ postgresPlaceholderRegexp_ReplaceAllString (Some (last ds)) post repl"
  using assms(1) by (simp add: placeholderDigits_token [OF assms])

lemma scan_after_digit:
  assumes "post = [] \<or> (\<not> isWordChar (hd post) \<and> hd post \<noteq> CHR ''$'')"
  shows "postgresPlaceholderRegexp_ReplaceAllString (Some d) post repl =
         postgresPlaceholderRegexp_ReplaceAllString None post repl"
  using assms by (cases post) (auto simp: placeholderDigits_def)

lemma scan_no_dollar:
  "CHR ''$'' \<notin> set s \<Longrightarrow> postgresPlaceholderRegexp_ReplaceAllString p s repl = s"
  by (induction p s repl rule: postgresPlaceholderRegexp_ReplaceAllString.induct)
     (auto simp: placeholderDigits_def)

text \<open>
  Claim C8. \<^verbatim>\<open>jdbcSQL\<close> is a substitution on the text, by engine. For an engine other
  than \<^verbatim>\<open>postgresql\<close> the text is returned unchanged. For \<^verbatim>\<open>postgresql\<close>, a text
  without a dollar sign is unchanged, and every placeholder token is replaced by \<^verbatim>\<open>?\<close>:
  when a dollar sign follows the start of the text or a byte that is not a word character,
  is followed by one or more digits, and the digits are followed by the end of the text or a
  byte that is not a word character, then the result is the rewritten text before the
  token, a question mark, and the rewritten rest (the scan goes on behind the digits; when
  the rest does not start with a dollar sign, this is \<^verbatim>\<open>jdbcSQL\<close> of the rest). Quotes play
  no role: a token inside a string literal is rewritten as well.
\<close>

theorem jdbcSQL_rewrites_placeholders:
  "(engine \<noteq> ''postgresql'' \<longrightarrow> jdbcSQL s engine = s) \<and>
   (CHR ''$'' \<notin> set s \<longrightarrow> jdbcSQL s ''postgresql'' = s) \<and>
   ((pre = [] \<or> \<not> isWordChar (last pre)) \<and> ds \<noteq> [] \<and> list_all isDigit ds \<and>
    (post = [] \<or> \<not> isWordChar (hd post)) \<longrightarrow>
      jdbcSQL (pre @ ''$'' @ ds @ post) ''postgresql'' =
        jdbcSQL pre ''postgresql'' @ ''?'' @
        postgresPlaceholderRegexp_ReplaceAllString (Some (last ds)) post ''?'' \<and>
      (post = [] \<or> hd post \<noteq> CHR ''$'' \<longrightarrow>
         jdbcSQL (pre @ ''$'' @ ds @ post) ''postgresql'' =
           jdbcSQL pre ''postgresql'' @ ''?'' @ jdbcSQL post ''postgresql'')) \<and>
   jdbcSQL ''SELECT '$1' AS a FROM t WHERE b = $2'' ''postgresql'' =
     ''SELECT '?' AS a FROM t WHERE b = ?''"
proof (intro conjI impI)
  show "engine \<noteq> ''postgresql'' \<Longrightarrow> jdbcSQL s engine = s"
    by (simp add: jdbcSQL_def)
  show "CHR ''$'' \<notin> set s \<Longrightarrow> jdbcSQL s ''postgresql'' = s"
    by (simp add: jdbcSQL_def scan_no_dollar)
  show "jdbcSQL ''SELECT '$1' AS a FROM t WHERE b = $2'' ''postgresql'' =
     ''SELECT '?' AS a FROM t WHERE b = ?''"
    by (simp add: jdbcSQL_def placeholderDigits_def isDigit_def isWordChar_def isIdentChar_def)
next
  assume a: "(pre = [] \<or> \<not> isWordChar (last pre)) \<and> ds \<noteq> [] \<and> list_all isDigit ds \<and>
    (post = [] \<or> \<not> isWordChar (hd post))"
  have "postgresPlaceholderRegexp_ReplaceAllString None (pre @ CHR ''$'' # ds @ post) ''?'' =
        postgresPlaceholderRegexp_ReplaceAllString None pre ''?'' @
        postgresPlaceholderRegexp_ReplaceAllString (if pre = [] then None else Some (last pre))
          (CHR ''$'' # ds @ post) ''?''"
    by (rule scan_append) simp
  also have "postgresPlaceholderRegexp_ReplaceAllString (if pre = [] then None else Some (last pre))
          (CHR ''$'' # ds @ post) ''?'' =
        postgresPlaceholderRegexp_ReplaceAllString None (CHR ''$'' # ds @ post) ''?''"
  proof (cases "pre = []")
    case True
    then show ?thesis by (simp del: postgresPlaceholderRegexp_ReplaceAllString.simps)
  next
    case False
    with a have "\<not> isWordChar (last pre)" by simp
    with False show ?thesis
      by (simp add: scan_prev del: postgresPlaceholderRegexp_ReplaceAllString.simps)
  qed
  also have "\<dots> = ''?'' @ postgresPlaceholderRegexp_ReplaceAllString (Some (last ds)) post ''?''"
    using a by (intro scan_token) auto
  finally show main: "jdbcSQL (pre @ ''$'' @ ds @ post) ''postgresql'' =
        jdbcSQL pre ''postgresql'' @ ''?'' @
        postgresPlaceholderRegexp_ReplaceAllString (Some (last ds)) post ''?''"
    by (simp add: jdbcSQL_def)
  assume "post = [] \<or> hd post \<noteq> CHR ''$''"
  with a have "postgresPlaceholderRegexp_ReplaceAllString (Some (last ds)) post ''?'' =
      postgresPlaceholderRegexp_ReplaceAllString None post ''?''"
    by (intro scan_after_digit) auto
  with main show "jdbcSQL (pre @ ''$'' @ ds @ post) ''postgresql'' =
           jdbcSQL pre ''postgresql'' @ ''?'' @ jdbcSQL post ''postgresql''"
    by (simp add: jdbcSQL_def)
qed


theorem jdbcSQL_rewrites_placeholders_witness:
  "''mysql'' \<noteq> ''postgresql'' \<and>
   jdbcSQL ''SELECT $1'' ''mysql'' = ''SELECT $1'' \<and>
   CHR ''$'' \<notin> set ''SELECT 1'' \<and>
   jdbcSQL ''SELECT 1'' ''postgresql'' = ''SELECT 1'' \<and>
   \<not> isWordChar (last ''a = '') \<and> ''12'' \<noteq> [] \<and> list_all isDigit ''12'' \<and>
   \<not> isWordChar (hd '' AND b'') \<and> hd '' AND b'' \<noteq> CHR ''$'' \<and>
   jdbcSQL (''a = '' @ ''$'' @ ''12'' @ '' AND b'') ''postgresql'' =
     jdbcSQL ''a = '' ''postgresql'' @ ''?'' @ jdbcSQL '' AND b'' ''postgresql'' \<and>
   jdbcSQL ''a = $12 AND b'' ''postgresql'' = ''a = ? AND b''"
proof -
  have chars: "\<not> isWordChar (last ''a = '')" "list_all isDigit ''12''"
    "\<not> isWordChar (hd '' AND b'')"
    by (simp_all add: isWordChar_def isIdentChar_def isDigit_def)
  have parts: "jdbcSQL ''a = '' ''postgresql'' = ''a = ''"
    "jdbcSQL '' AND b'' ''postgresql'' = '' AND b''"
    by (simp_all add: jdbcSQL_def placeholderDigits_def)
  show ?thesis
    using jdbcSQL_rewrites_placeholders [of "''mysql''" "''SELECT $1''" "''a = ''" "''12''"
        "'' AND b''"]
      jdbcSQL_rewrites_placeholders [of "''mysql''" "''SELECT 1''" "''a = ''" "''12''"
        "'' AND b''"]
      chars
    by (simp add: parts)
qed

section \<open>The loop of ktColumnsToStruct in closed form\<close>

lemma firstOccurrences_from_snoc:
  "firstOccurrences_from seen (xs @ [c]) =
   firstOccurrences_from seen xs @
   (if gc_id c \<in> set seen \<union> gc_id ` set xs then [] else [c])"
  by (induction xs arbitrary: seen) auto

lemma firstOccurrences_snoc:
  "firstOccurrences (xs @ [c]) =
   firstOccurrences xs @ (if gc_id c \<in> gc_id ` set xs then [] else [c])"
  by (simp add: firstOccurrences_def firstOccurrences_from_snoc)

lemma ids_firstOccurrences_from:
  "gc_id ` set (firstOccurrences_from seen xs) = gc_id ` set xs - set seen"
  by (induction xs arbitrary: seen) auto

lemma ids_firstOccurrences: "gc_id ` set (firstOccurrences xs) = gc_id ` set xs"
  by (simp add: firstOccurrences_def ids_firstOccurrences_from)

lemma distinct_firstOccurrences_from:
  "distinct (map gc_id (firstOccurrences_from seen xs))"
  by (induction xs arbitrary: seen) (auto simp: ids_firstOccurrences_from)

lemma distinct_firstOccurrences: "distinct (map gc_id (firstOccurrences xs))"
  by (simp add: firstOccurrences_def distinct_firstOccurrences_from)

lemma length_fieldsOf [simp]: "length (fieldsOf x req namer fs) = length fs"
  by (simp add: fieldsOf_def)

lemma fieldsOf_snoc:
  "fieldsOf x req namer (fs @ [c]) = fieldsOf x req namer fs @ [fieldFor x req namer fs c]"
proof -
  have "map (\<lambda>k. fieldFor x req namer (take k (fs @ [c])) ((fs @ [c]) ! k)) [0..<length fs] =
        map (\<lambda>k. fieldFor x req namer (take k fs) (fs ! k)) [0..<length fs]"
    by (rule map_cong) (simp_all add: nth_append)
  then show ?thesis
    by (simp add: fieldsOf_def)
qed


lemma fieldOfId_dom: "dom (fieldOfId x req namer cols) = gc_id ` set cols"
proof -
  have "dom (fieldOfId x req namer cols) = set (map gc_id (firstOccurrences cols))"
    unfolding fieldOfId_def by (rule dom_map_of_zip) simp
  then show ?thesis
    by (simp add: ids_firstOccurrences)
qed

lemma fieldOfId_snoc_old:
  "gc_id c \<in> gc_id ` set cols \<Longrightarrow>
   fieldOfId x req namer (cols @ [c]) = fieldOfId x req namer cols"
  by (simp add: fieldOfId_def firstOccurrences_snoc)

lemma map_of_zip_snoc:
  assumes "length ks = length vs" and "map_of (zip ks vs) k = None"
  shows "map_of (zip (ks @ [k]) (vs @ [v])) = (map_of (zip ks vs))(k \<mapsto> v)"
proof -
  have "zip (ks @ [k]) (vs @ [v]) = zip ks vs @ [(k, v)]"
    using assms(1) by simp
  then have "map_of (zip (ks @ [k]) (vs @ [v])) = map_of [(k, v)] ++ map_of (zip ks vs)"
    by (simp only: map_of_append)
  also have "\<dots> = (map_of (zip ks vs))(k \<mapsto> v)"
    using assms(2) by (auto simp: fun_eq_iff map_add_def split: option.splits)
  finally show ?thesis .
qed

lemma fieldOfId_snoc_new:
  assumes "gc_id c \<notin> gc_id ` set cols"
  shows "fieldOfId x req namer (cols @ [c]) =
         (fieldOfId x req namer cols)
           (gc_id c \<mapsto> fieldFor x req namer (firstOccurrences cols) c)"
proof -
  have "dom (fieldOfId x req namer cols) = gc_id ` set cols"
    by (rule fieldOfId_dom)
  with assms have none: "fieldOfId x req namer cols (gc_id c) = None"
    by blast
  have "fieldOfId x req namer (cols @ [c]) =
        map_of (zip (map gc_id (firstOccurrences cols) @ [gc_id c])
                    (fieldsOf x req namer (firstOccurrences cols) @
                     [fieldFor x req namer (firstOccurrences cols) c]))"
    using assms by (simp add: fieldOfId_def firstOccurrences_snoc fieldsOf_snoc)
  also have "\<dots> = (fieldOfId x req namer cols)
           (gc_id c \<mapsto> fieldFor x req namer (firstOccurrences cols) c)"
    unfolding fieldOfId_def
    using none by (intro map_of_zip_snoc) (simp_all add: fieldOfId_def)
  finally show ?thesis .
qed


lemma nameCount_snoc:
  "nameCount n (fs @ [c]) = nameCount n fs + (if col_Name (gc_Column c) = n then 1 else 0)"
  by (simp add: nameCount_def)

lemma nameCount_nonneg: "0 \<le> nameCount n fs"
  by (simp add: nameCount_def)

lemma closed_step_old:
  assumes "gc_id c \<in> gc_id ` set cols"
  shows "ktColumnsToStruct_step x req namer (ktColumnsToStruct_closed x req namer name cols) c =
         ktColumnsToStruct_closed x req namer name (cols @ [c])"
proof -
  have "gc_id c \<in> dom (fieldOfId x req namer cols)"
    using assms by (simp add: fieldOfId_dom)
  then obtain b where b: "fieldOfId x req namer cols (gc_id c) = Some b"
    by blast
  have fo: "firstOccurrences (cols @ [c]) = firstOccurrences cols"
    using assms by (simp add: firstOccurrences_snoc)
  have fi: "fieldOfId x req namer (cols @ [c]) = fieldOfId x req namer cols"
    using assms by (rule fieldOfId_snoc_old)
  show ?thesis
    unfolding ktColumnsToStruct_closed_def fo fi
    by (simp add: ktColumnsToStruct_step_def b)
qed

lemma closed_step_new:
  assumes "gc_id c \<notin> gc_id ` set cols"
  shows "ktColumnsToStruct_step x req namer (ktColumnsToStruct_closed x req namer name cols) c =
         ktColumnsToStruct_closed x req namer name (cols @ [c])"
proof -
  have "gc_id c \<notin> dom (fieldOfId x req namer cols)"
    using assms by (simp add: fieldOfId_dom)
  then have none: "fieldOfId x req namer cols (gc_id c) = None"
    by blast
  let ?fs = "firstOccurrences cols"
  let ?n = "col_Name (gc_Column c)"
  let ?seen = "\<lambda>n. if nameCount n ?fs = 0 then None else Some (nameCount n ?fs)"
  have v: "nameSeen_get ?seen ?n = nameCount ?n ?fs"
    by (simp add: nameSeen_get_def)
  let ?field = "fieldFor x req namer ?fs c"
  have field: "\<lparr>fld_Name =
         (if nameCount ?n ?fs > 0
          then memberName x (namer (gc_Column c) (gc_id c)) (req_Settings req) @ ''_'' @
               fmt_d (nameCount ?n ?fs + 1)
          else memberName x (namer (gc_Column c) (gc_id c)) (req_Settings req)),
       fld_Type = makeType x req (gc_Column c), fld_Comment = []\<rparr> = ?field"
    by (simp add: fieldFor_def Let_def)
  have bindings: "map (\<lambda>c'. the (fieldOfId x req namer (cols @ [c]) (gc_id c'))) cols =
        map (\<lambda>c'. the (fieldOfId x req namer cols (gc_id c'))) cols"
  proof (rule map_cong)
    fix c' assume "c' \<in> set cols"
    then have "gc_id c' \<in> gc_id ` set cols" by (rule imageI)
    with assms have "gc_id c' \<noteq> gc_id c" by metis
    with assms show "the (fieldOfId x req namer (cols @ [c]) (gc_id c')) =
        the (fieldOfId x req namer cols (gc_id c'))"
      by (simp add: fieldOfId_snoc_new)
  qed simp
  have seen: "?seen(?n \<mapsto> nameCount ?n ?fs + 1) =
        (\<lambda>n. if nameCount n (?fs @ [c]) = 0 then None else Some (nameCount n (?fs @ [c])))"
    using nameCount_nonneg [of ?n ?fs] by (auto simp: fun_eq_iff nameCount_snoc)
  have step: "ktColumnsToStruct_step x req namer (ktColumnsToStruct_closed x req namer name cols) c =
      (\<lparr>st_Table = zero_Identifier, st_Name = name,
        st_Fields = fieldsOf x req namer ?fs @ [?field],
        st_JDBCParamBindings =
          map (\<lambda>c'. the (fieldOfId x req namer cols (gc_id c'))) cols @ [?field],
        st_Comment = []\<rparr>,
       (fieldOfId x req namer cols)(gc_id c \<mapsto> ?field),
       ?seen(?n \<mapsto> nameCount ?n ?fs + 1))"
    unfolding ktColumnsToStruct_step_def ktColumnsToStruct_closed_def
    by (simp add: none v fieldFor_def Let_def)
  have fo: "firstOccurrences (cols @ [c]) = ?fs @ [c]"
    using assms by (simp add: firstOccurrences_snoc)
  have last_binding: "the (fieldOfId x req namer (cols @ [c]) (gc_id c)) = ?field"
    using assms by (simp add: fieldOfId_snoc_new)
  have all_bindings:
    "map (\<lambda>c'. the (fieldOfId x req namer (cols @ [c]) (gc_id c'))) (cols @ [c]) =
     map (\<lambda>c'. the (fieldOfId x req namer cols (gc_id c'))) cols @ [?field]"
    by (simp only: map_append list.map bindings last_binding)
  have idmap: "fieldOfId x req namer (cols @ [c]) =
      (fieldOfId x req namer cols)(gc_id c \<mapsto> ?field)"
    using assms by (rule fieldOfId_snoc_new)
  have "ktColumnsToStruct_closed x req namer name (cols @ [c]) =
      (\<lparr>st_Table = zero_Identifier, st_Name = name,
        st_Fields = fieldsOf x req namer ?fs @ [?field],
        st_JDBCParamBindings =
          map (\<lambda>c'. the (fieldOfId x req namer cols (gc_id c'))) cols @ [?field],
        st_Comment = []\<rparr>,
       (fieldOfId x req namer cols)(gc_id c \<mapsto> ?field),
       ?seen(?n \<mapsto> nameCount ?n ?fs + 1))"
    unfolding ktColumnsToStruct_closed_def all_bindings
    unfolding fo fieldsOf_snoc seen idmap
    by (rule refl)
  with step show ?thesis by simp
qed

lemma foldl_closed:
  "foldl (ktColumnsToStruct_step x req namer) (ktColumnsToStruct_init name) cols =
   ktColumnsToStruct_closed x req namer name cols"
proof (induction cols rule: rev_induct)
  case Nil
  show ?case
    by (simp add: ktColumnsToStruct_init_def ktColumnsToStruct_closed_def firstOccurrences_def
        fieldsOf_def fieldOfId_def nameCount_def)
next
  case (snoc c cols)
  then show ?case
    by (cases "gc_id c \<in> gc_id ` set cols") (simp_all add: closed_step_old closed_step_new)
qed

lemma ktColumnsToStruct_closed_form:
  "ktColumnsToStruct x req name cols namer =
   \<lparr>st_Table = zero_Identifier,
    st_Name = name,
    st_Fields = fieldsOf x req namer (firstOccurrences cols),
    st_JDBCParamBindings = map (\<lambda>c. the (fieldOfId x req namer cols (gc_id c))) cols,
    st_Comment = []\<rparr>"
  by (simp add: ktColumnsToStruct_def foldl_closed ktColumnsToStruct_closed_def)

section \<open>Parameters and bindings\<close>

lemma firstOccurrences_from_seen_cong:
  "set seen = set seen' \<Longrightarrow> firstOccurrences_from seen xs = firstOccurrences_from seen' xs"
proof (induction xs arbitrary: seen seen')
  case Nil
  show ?case by simp
next
  case (Cons c cs)
  from Cons.prems have "set (gc_id c # seen) = set (gc_id c # seen')" by simp
  then have "firstOccurrences_from (gc_id c # seen) cs = firstOccurrences_from (gc_id c # seen') cs"
    by (rule Cons.IH)
  moreover have "firstOccurrences_from seen cs = firstOccurrences_from seen' cs"
    using Cons.prems by (rule Cons.IH)
  ultimately show ?case using Cons.prems by simp
qed

lemma firstOccurrences_from_append:
  "firstOccurrences_from seen (xs @ ys) =
   firstOccurrences_from seen xs @ firstOccurrences_from (map gc_id xs @ seen) ys"
proof (induction xs arbitrary: seen)
  case Nil
  show ?case by simp
next
  case (Cons c cs)
  show ?case
  proof (cases "gc_id c \<in> set seen")
    case True
    then have "set (map gc_id cs @ seen) = set (map gc_id (c # cs) @ seen)" by auto
    then have "firstOccurrences_from (map gc_id cs @ seen) ys =
        firstOccurrences_from (map gc_id (c # cs) @ seen) ys"
      by (rule firstOccurrences_from_seen_cong)
    with True Cons.IH [of seen] show ?thesis by simp
  next
    case False
    have "set (map gc_id cs @ gc_id c # seen) = set (map gc_id (c # cs) @ seen)" by auto
    then have "firstOccurrences_from (map gc_id cs @ gc_id c # seen) ys =
        firstOccurrences_from (map gc_id (c # cs) @ seen) ys"
      by (rule firstOccurrences_from_seen_cong)
    with False Cons.IH [of "gc_id c # seen"] show ?thesis by simp
  qed
qed

lemma firstOccurrences_at:
  assumes "i < length cols" and "gc_id (cols ! i) \<notin> gc_id ` set (take i cols)"
  shows "\<exists>rest. firstOccurrences cols = firstOccurrences (take i cols) @ cols ! i # rest"
proof -
  have "cols = take i cols @ cols ! i # drop (Suc i) cols"
    using assms(1) by (simp add: id_take_nth_drop)
  then have "firstOccurrences cols =
      firstOccurrences_from [] (take i cols @ cols ! i # drop (Suc i) cols)"
    by (simp add: firstOccurrences_def)
  also have "\<dots> = firstOccurrences (take i cols) @
      firstOccurrences_from (map gc_id (take i cols) @ []) (cols ! i # drop (Suc i) cols)"
    unfolding firstOccurrences_def by (rule firstOccurrences_from_append)
  finally show ?thesis
    using assms(2) by simp
qed

lemma fieldsOf_nth:
  "k < length fs \<Longrightarrow> fieldsOf x req namer fs ! k = fieldFor x req namer (take k fs) (fs ! k)"
  by (simp add: fieldsOf_def)

lemma fieldOfId_first:
  assumes "k < length (firstOccurrences cols)"
  shows "fieldOfId x req namer cols (gc_id (firstOccurrences cols ! k)) =
         Some (fieldsOf x req namer (firstOccurrences cols) ! k)"
proof -
  have "map_of (zip (map gc_id (firstOccurrences cols))
                    (fieldsOf x req namer (firstOccurrences cols)))
          (map gc_id (firstOccurrences cols) ! k) =
        Some (fieldsOf x req namer (firstOccurrences cols) ! k)"
    using assms by (intro map_of_zip_nth) (simp_all add: distinct_firstOccurrences)
  with assms show ?thesis
    by (simp add: fieldOfId_def)
qed

lemma length_firstOccurrences: "length (firstOccurrences cols) = card (gc_id ` set cols)"
proof -
  have "length (firstOccurrences cols) = length (map gc_id (firstOccurrences cols))"
    by simp
  also have "\<dots> = card (set (map gc_id (firstOccurrences cols)))"
    using distinct_firstOccurrences [of cols] by (simp only: distinct_card)
  finally show ?thesis
    by (simp add: ids_firstOccurrences)
qed

lemma first_binding:
  assumes "i < length cols" and "gc_id (cols ! i) \<notin> gc_id ` set (take i cols)"
  shows "length (firstOccurrences (take i cols)) < length (firstOccurrences cols)"
    and "fieldsOf x req namer (firstOccurrences cols) ! length (firstOccurrences (take i cols)) =
         fieldFor x req namer (firstOccurrences (take i cols)) (cols ! i)"
    and "the (fieldOfId x req namer cols (gc_id (cols ! i))) =
         fieldFor x req namer (firstOccurrences (take i cols)) (cols ! i)"
proof -
  let ?k = "length (firstOccurrences (take i cols))"
  from firstOccurrences_at [OF assms(1,2)] obtain rest where
    fo: "firstOccurrences cols = firstOccurrences (take i cols) @ cols ! i # rest"
    by blast
  show k: "?k < length (firstOccurrences cols)"
    by (simp add: fo)
  have nth: "firstOccurrences cols ! ?k = cols ! i"
    by (simp add: fo)
  have tk: "take ?k (firstOccurrences cols) = firstOccurrences (take i cols)"
    by (simp add: fo)
  show f: "fieldsOf x req namer (firstOccurrences cols) ! ?k =
         fieldFor x req namer (firstOccurrences (take i cols)) (cols ! i)"
    using k by (simp add: fieldsOf_nth nth tk)
  from fieldOfId_first [OF k, of x req namer] show
    "the (fieldOfId x req namer cols (gc_id (cols ! i))) =
         fieldFor x req namer (firstOccurrences (take i cols)) (cols ! i)"
    by (simp add: nth f)
qed

lemma Arg_compileQuery:
  "par_Struct (Arg (compileQuery x req structs query)) =
   ktColumnsToStruct x req (ClassName (compileQuery x req structs query) @ ''Bindings'')
     (map (\<lambda>p. \<lparr>gc_id = par_Number p, gc_Column = par_Column p\<rparr>) (pq_Params query))
     (ktParamName x)"
  by (simp add: compileQuery_def Let_def)

text \<open>
  Claim C1. For the struct \<^verbatim>\<open>gs\<close> that \<^verbatim>\<open>ktColumnsToStruct\<close> builds from a list of
  columns with ids (for the arguments of a query: the parameters with their numbers, and
  the namer \<^verbatim>\<open>ktParamName\<close>): there is one field per distinct id and one binding per
  column. The usage at position \<^verbatim>\<open>i\<close> that carries its id for the first time creates a
  field, the next of the struct, and binds it; its name is the member name of the namer's
  result (for a parameter: made from the column name, or \<^verbatim>\<open>dollar_\<close> and the number when
  the column has no name), followed by a suffix or not. A later usage of an id binds the
  same field as every earlier usage of that id and creates none. So a column list with
  the ids 1, 1, 1, 2 in any order gives 2 fields and 4 bindings.
\<close>

theorem ktColumnsToStruct_bindings:
  "gs = ktColumnsToStruct x req name cols namer \<Longrightarrow>
   length (st_Fields gs) = card (gc_id ` set cols) \<and>
   length (st_JDBCParamBindings gs) = length cols \<and>
   st_Fields gs = fieldsOf x req namer (firstOccurrences cols) \<and>
   (\<forall>i < length cols.
      (gc_id (cols ! i) \<notin> gc_id ` set (take i cols) \<longrightarrow>
         length (firstOccurrences (take i cols)) < length (st_Fields gs) \<and>
         st_Fields gs ! length (firstOccurrences (take i cols)) =
           fieldFor x req namer (firstOccurrences (take i cols)) (cols ! i) \<and>
         st_JDBCParamBindings gs ! i =
           fieldFor x req namer (firstOccurrences (take i cols)) (cols ! i)) \<and>
      (\<forall>j < i. gc_id (cols ! j) = gc_id (cols ! i) \<longrightarrow>
         st_JDBCParamBindings gs ! i = st_JDBCParamBindings gs ! j)) \<and>
   (\<exists>suffix. fld_Name (fieldFor x req namer earlier c) =
      memberName x (namer (gc_Column c) (gc_id c)) (req_Settings req) @ suffix) \<and>
   ktParamName x col number =
     (if col_Name col \<noteq> [] then ktArgName x (col_Name col) else ''dollar_'' @ fmt_d number) \<and>
   par_Struct (Arg (compileQuery x req structs query)) =
     ktColumnsToStruct x req (ClassName (compileQuery x req structs query) @ ''Bindings'')
       (map (\<lambda>p. \<lparr>gc_id = par_Number p, gc_Column = par_Column p\<rparr>) (pq_Params query))
       (ktParamName x) \<and>
   (mset (map gc_id cols) = {#1, 1, 1, 2#} \<longrightarrow>
      length (st_Fields gs) = 2 \<and> length (st_JDBCParamBindings gs) = 4)"
proof -
  assume "gs = ktColumnsToStruct x req name cols namer"
  then have gs: "gs =
     \<lparr>st_Table = zero_Identifier, st_Name = name,
      st_Fields = fieldsOf x req namer (firstOccurrences cols),
      st_JDBCParamBindings = map (\<lambda>c. the (fieldOfId x req namer cols (gc_id c))) cols,
      st_Comment = []\<rparr>"
    by (simp add: ktColumnsToStruct_closed_form)
  have fields: "length (st_Fields gs) = card (gc_id ` set cols)"
    by (simp add: gs length_firstOccurrences)
  have bindings: "length (st_JDBCParamBindings gs) = length cols"
    by (simp add: gs)
  have positions: "\<forall>i < length cols.
      (gc_id (cols ! i) \<notin> gc_id ` set (take i cols) \<longrightarrow>
         length (firstOccurrences (take i cols)) < length (st_Fields gs) \<and>
         st_Fields gs ! length (firstOccurrences (take i cols)) =
           fieldFor x req namer (firstOccurrences (take i cols)) (cols ! i) \<and>
         st_JDBCParamBindings gs ! i =
           fieldFor x req namer (firstOccurrences (take i cols)) (cols ! i)) \<and>
      (\<forall>j < i. gc_id (cols ! j) = gc_id (cols ! i) \<longrightarrow>
         st_JDBCParamBindings gs ! i = st_JDBCParamBindings gs ! j)"
  proof (intro allI impI conjI)
    fix i assume i: "i < length cols"
    {
      assume new: "gc_id (cols ! i) \<notin> gc_id ` set (take i cols)"
      from first_binding [OF i new]
      show "length (firstOccurrences (take i cols)) < length (st_Fields gs)"
        and "st_Fields gs ! length (firstOccurrences (take i cols)) =
           fieldFor x req namer (firstOccurrences (take i cols)) (cols ! i)"
        and "st_JDBCParamBindings gs ! i =
           fieldFor x req namer (firstOccurrences (take i cols)) (cols ! i)"
        using i by (simp_all add: gs)
    }
    fix j assume "j < i" and "gc_id (cols ! j) = gc_id (cols ! i)"
    with i show "st_JDBCParamBindings gs ! i = st_JDBCParamBindings gs ! j"
      by (simp add: gs)
  qed
  have naming: "\<exists>suffix. fld_Name (fieldFor x req namer earlier c) =
      memberName x (namer (gc_Column c) (gc_id c)) (req_Settings req) @ suffix"
    by (simp add: fieldFor_def Let_def)
  have example: "mset (map gc_id cols) = {#1, 1, 1, 2#} \<longrightarrow>
      length (st_Fields gs) = 2 \<and> length (st_JDBCParamBindings gs) = 4"
  proof
    assume m: "mset (map gc_id cols) = {#1, 1, 1, 2#}"
    then have "set_mset (mset (map gc_id cols)) = {1, 2}" by auto
    then have "gc_id ` set cols = {1, 2}" by simp
    then have "card (gc_id ` set cols) = 2" by simp
    moreover from m have "size (mset (map gc_id cols)) = 4" by simp
    then have "length cols = 4" by simp
    ultimately show "length (st_Fields gs) = 2 \<and> length (st_JDBCParamBindings gs) = 4"
      using fields bindings by simp
  qed
  show ?thesis
    using fields bindings positions naming example
    by (simp add: gs ktParamName_def Arg_compileQuery)
qed


theorem ktColumnsToStruct_bindings_witness:
  "mset (map gc_id ex_cols) = {#1, 1, 1, 2#} \<and>
   length (st_Fields (ktColumnsToStruct sample_deps (ex_req ''postgresql'' []) ''GetUserBindings''
      ex_cols (ktParamName sample_deps))) = 2 \<and>
   length (st_JDBCParamBindings (ktColumnsToStruct sample_deps (ex_req ''postgresql'' [])
      ''GetUserBindings'' ex_cols (ktParamName sample_deps))) = 4 \<and>
   (0 :: nat) < length ex_cols \<and>
   gc_id (ex_cols ! 0) \<notin> gc_id ` set (take 0 ex_cols) \<and>
   st_JDBCParamBindings (ktColumnsToStruct sample_deps (ex_req ''postgresql'' [])
      ''GetUserBindings'' ex_cols (ktParamName sample_deps)) ! 0 =
     \<lparr>fld_Name = ''id'', fld_Type = ex_kt ''postgresql'' ''UUID'' ''uuid'' False,
      fld_Comment = []\<rparr> \<and>
   (2 :: nat) < length ex_cols \<and> gc_id (ex_cols ! 0) = gc_id (ex_cols ! 2) \<and>
   st_JDBCParamBindings (ktColumnsToStruct sample_deps (ex_req ''postgresql'' [])
      ''GetUserBindings'' ex_cols (ktParamName sample_deps)) ! 2 =
   st_JDBCParamBindings (ktColumnsToStruct sample_deps (ex_req ''postgresql'' [])
      ''GetUserBindings'' ex_cols (ktParamName sample_deps)) ! 0"
proof -
  let ?G = "ktColumnsToStruct sample_deps (ex_req ''postgresql'' []) ''GetUserBindings''
      ex_cols (ktParamName sample_deps)"
  note t = ktColumnsToStruct_bindings [OF refl, of sample_deps "ex_req ''postgresql'' []"
      "''GetUserBindings''" ex_cols "ktParamName sample_deps"]
  have m: "mset (map gc_id ex_cols) = {#1, 1, 1, 2#}"
    by (simp add: ex_cols_def)
  have len: "length ex_cols = 4"
    by (simp add: ex_cols_def)
  have first: "gc_id (ex_cols ! 0) \<notin> gc_id ` set (take 0 ex_cols)"
    by simp
  have same: "gc_id (ex_cols ! 0) = gc_id (ex_cols ! 2)"
    by (simp add: ex_cols_def)
  have field: "fieldFor sample_deps (ex_req ''postgresql'' []) (ktParamName sample_deps)
      (firstOccurrences []) (ex_cols ! 0) =
     \<lparr>fld_Name = ''id'', fld_Type = ex_kt ''postgresql'' ''UUID'' ''uuid'' False,
      fld_Comment = []\<rparr>"
    by (simp add: fieldFor_def firstOccurrences_def nameCount_def ex_cols_def ktParamName_def
        ktArgName_def sample_names sample_types sample_ToLower_def)
  from t m have sizes: "length (st_Fields ?G) = 2 \<and> length (st_JDBCParamBindings ?G) = 4"
    by blast
  from t have pos: "\<forall>i < length ex_cols.
      (gc_id (ex_cols ! i) \<notin> gc_id ` set (take i ex_cols) \<longrightarrow>
         st_JDBCParamBindings ?G ! i =
           fieldFor sample_deps (ex_req ''postgresql'' []) (ktParamName sample_deps)
             (firstOccurrences (take i ex_cols)) (ex_cols ! i)) \<and>
      (\<forall>j < i. gc_id (ex_cols ! j) = gc_id (ex_cols ! i) \<longrightarrow>
         st_JDBCParamBindings ?G ! i = st_JDBCParamBindings ?G ! j)"
    by blast
  from pos len first have b0: "st_JDBCParamBindings ?G ! 0 =
      fieldFor sample_deps (ex_req ''postgresql'' []) (ktParamName sample_deps)
        (firstOccurrences (take 0 ex_cols)) (ex_cols ! 0)"
    by (metis zero_less_numeral)
  from pos len same have b2: "st_JDBCParamBindings ?G ! 2 = st_JDBCParamBindings ?G ! 0"
    by (metis numeral_less_iff semiring_norm(76) semiring_norm(78) zero_less_numeral)
  show ?thesis
    using m sizes len first same b0 b2 by (simp add: field)
qed

section \<open>Field names\<close>

lemma digitChar_inj: "d < 10 \<Longrightarrow> e < 10 \<Longrightarrow> digitChar d = digitChar e \<Longrightarrow> d = e"
proof -
  assume "d < 10" "e < 10" "digitChar d = digitChar e"
  moreover have "distinct ''0123456789''" by simp
  ultimately show "d = e"
    unfolding digitChar_def by (simp add: nth_eq_iff_index_eq)
qed

lemma digitChar_not_underscore: "d < 10 \<Longrightarrow> digitChar d \<noteq> CHR ''_''"
proof -
  assume "d < 10"
  then have "digitChar d \<in> set ''0123456789''"
    unfolding digitChar_def by (intro nth_mem) simp
  then show ?thesis by auto
qed

lemma natToDec_not_Nil: "natToDec n \<noteq> []"
  by (subst natToDec.simps) simp

lemma natToDec_no_underscore: "CHR ''_'' \<notin> set (natToDec n)"
proof (induction n rule: natToDec.induct)
  case (1 n)
  show ?case
  proof (cases "n < 10")
    case True
    then show ?thesis
      by (subst natToDec.simps) (simp add: digitChar_not_underscore [symmetric])
  next
    case False
    have "n mod 10 < 10" by simp
    then have "digitChar (n mod 10) \<noteq> CHR ''_''" by (rule digitChar_not_underscore)
    with False 1 show ?thesis
      by (subst natToDec.simps) auto
  qed
qed

lemma natToDec_inj: "natToDec n = natToDec m \<Longrightarrow> n = m"
proof (induction n arbitrary: m rule: natToDec.induct)
  case (1 n)
  show ?case
  proof (cases "n < 10")
    case n: True
    show ?thesis
    proof (cases "m < 10")
      case True
      from 1(2) have "[digitChar n] = [digitChar m]"
        using n True by (subst (asm) natToDec.simps, subst (asm) (2) natToDec.simps) simp
      with n True show ?thesis by (simp add: digitChar_inj)
    next
      case False
      from 1(2) have "[digitChar n] = natToDec (m div 10) @ [digitChar (m mod 10)]"
        using n False by (subst (asm) natToDec.simps, subst (asm) (2) natToDec.simps) simp
      then show ?thesis
        using natToDec_not_Nil [of "m div 10"] by simp
    qed
  next
    case n: False
    show ?thesis
    proof (cases "m < 10")
      case True
      from 1(2) have "natToDec (n div 10) @ [digitChar (n mod 10)] = [digitChar m]"
        using n True by (subst (asm) natToDec.simps, subst (asm) (2) natToDec.simps) simp
      then show ?thesis
        using natToDec_not_Nil [of "n div 10"] by simp
    next
      case False
      from 1(2) have "natToDec (n div 10) @ [digitChar (n mod 10)] =
          natToDec (m div 10) @ [digitChar (m mod 10)]"
        using n False by (subst (asm) natToDec.simps, subst (asm) (2) natToDec.simps) simp
      then have a: "natToDec (n div 10) = natToDec (m div 10)"
        and b: "digitChar (n mod 10) = digitChar (m mod 10)"
        by simp_all
      from 1(1) [OF n a] have "n div 10 = m div 10" .
      moreover from b have "n mod 10 = m mod 10"
        by (intro digitChar_inj) simp_all
      ultimately show ?thesis
        by (metis div_mult_mod_eq)
    qed
  qed
qed

lemma fmt_d_inj: "0 \<le> i \<Longrightarrow> 0 \<le> j \<Longrightarrow> fmt_d i = fmt_d j \<Longrightarrow> i = j"
  using natToDec_inj [of "nat i" "nat j"] by (simp add: fmt_d_def)

lemma fmt_d_no_underscore: "0 \<le> i \<Longrightarrow> CHR ''_'' \<notin> set (fmt_d i)"
  by (simp add: fmt_d_def natToDec_no_underscore)

lemma takeWhile_until: "x \<notin> set a \<Longrightarrow> takeWhile (\<lambda>c. c \<noteq> x) (a @ x # s) = a"
  by (induction a) auto

lemma split_at_underscore:
  assumes "CHR ''_'' \<notin> set a" and "CHR ''_'' \<notin> set b"
    and "a @ CHR ''_'' # s = b @ CHR ''_'' # t"
  shows "a = b \<and> s = t"
proof -
  have "takeWhile (\<lambda>c. c \<noteq> CHR ''_'') (a @ CHR ''_'' # s) = a"
    using assms(1) by (rule takeWhile_until)
  moreover have "takeWhile (\<lambda>c. c \<noteq> CHR ''_'') (b @ CHR ''_'' # t) = b"
    using assms(2) by (rule takeWhile_until)
  ultimately have "a = b" using assms(3) by simp
  with assms(3) show ?thesis by simp
qed


lemma fld_Name_fieldFor:
  "fld_Name (fieldFor x req namer earlier c) =
   (if nameCount (col_Name (gc_Column c)) earlier > 0
    then baseName x req namer c @ ''_'' @ fmt_d (nameCount (col_Name (gc_Column c)) earlier + 1)
    else baseName x req namer c)"
  by (simp add: fieldFor_def baseName_def Let_def)

lemma suffixed_names_equal:
  assumes "CHR ''_'' \<notin> set a" and "CHR ''_'' \<notin> set b" and "0 \<le> v" and "0 \<le> w"
    and "(if v > 0 then a @ ''_'' @ fmt_d (v + 1) else a) =
         (if w > 0 then b @ ''_'' @ fmt_d (w + 1) else b)"
  shows "a = b \<and> (w > 0 \<longrightarrow> v = w)"
proof (cases "v > 0"; cases "w > 0")
  assume v: "v > 0" and w: "w > 0"
  with assms(5) have "a @ CHR ''_'' # fmt_d (v + 1) = b @ CHR ''_'' # fmt_d (w + 1)"
    by simp
  with assms(1,2) have "a = b \<and> fmt_d (v + 1) = fmt_d (w + 1)"
    by (rule split_at_underscore)
  moreover from this v w have "v + 1 = w + 1"
    by (intro fmt_d_inj) simp_all
  ultimately show ?thesis by simp
next
  assume "v > 0" and "\<not> w > 0"
  with assms(5) have "a @ CHR ''_'' # fmt_d (v + 1) = b" by simp
  then have "CHR ''_'' \<in> set b" by auto
  with assms(2) show ?thesis by simp
next
  assume "\<not> v > 0" and "w > 0"
  with assms(5) have "a = b @ CHR ''_'' # fmt_d (w + 1)" by simp
  then have "CHR ''_'' \<in> set a" by auto
  with assms(1) show ?thesis by simp
next
  assume "\<not> v > 0" and "\<not> w > 0"
  with assms(5) show ?thesis by simp
qed

lemma nameCount_append: "nameCount n (a @ b) = nameCount n a + nameCount n b"
  by (simp add: nameCount_def)

lemma nameCount_take_mono:
  assumes "k < l" and "l \<le> length fs" and "col_Name (gc_Column (fs ! k)) = n"
  shows "nameCount n (take k fs) < nameCount n (take l fs)"
proof -
  have "k < length (take l fs)" using assms(1,2) by simp
  then have "take l fs = take k (take l fs) @ take l fs ! k # drop (Suc k) (take l fs)"
    by (rule id_take_nth_drop)
  also have "take k (take l fs) = take k fs"
    using assms(1) by (simp add: min_def)
  also have "take l fs ! k = fs ! k"
    using assms(1) by simp
  finally have "nameCount n (take l fs) =
      nameCount n (take k fs) + nameCount n (fs ! k # drop (Suc k) (take l fs))"
    by (metis nameCount_append)
  moreover have "0 < nameCount n (fs ! k # drop (Suc k) (take l fs))"
    using assms(3) by (simp add: nameCount_def)
  ultimately show ?thesis by simp
qed

lemma fieldsOf_names_differ:
  assumes no_us: "\<forall>c \<in> set fs. CHR ''_'' \<notin> set (baseName x req namer c)"
    and bases: "\<forall>c \<in> set fs. \<forall>d \<in> set fs.
        col_Name (gc_Column c) \<noteq> col_Name (gc_Column d) \<longrightarrow>
        baseName x req namer c \<noteq> baseName x req namer d"
    and ij: "i < j" "j < length fs"
  shows "fld_Name (fieldsOf x req namer fs ! i) \<noteq> fld_Name (fieldsOf x req namer fs ! j)"
proof
  let ?vi = "nameCount (col_Name (gc_Column (fs ! i))) (take i fs)"
  let ?vj = "nameCount (col_Name (gc_Column (fs ! j))) (take j fs)"
  assume eq: "fld_Name (fieldsOf x req namer fs ! i) = fld_Name (fieldsOf x req namer fs ! j)"
  from ij have mem: "fs ! i \<in> set fs" "fs ! j \<in> set fs" by simp_all
  from eq ij have "(if ?vi > 0 then baseName x req namer (fs ! i) @ ''_'' @ fmt_d (?vi + 1)
                    else baseName x req namer (fs ! i)) =
                   (if ?vj > 0 then baseName x req namer (fs ! j) @ ''_'' @ fmt_d (?vj + 1)
                    else baseName x req namer (fs ! j))"
    by (simp only: fieldsOf_nth fld_Name_fieldFor less_trans [OF ij])
  with no_us mem have same: "baseName x req namer (fs ! i) = baseName x req namer (fs ! j) \<and>
      (?vj > 0 \<longrightarrow> ?vi = ?vj)"
    by (intro suffixed_names_equal) (simp_all add: nameCount_nonneg)
  with bases mem have names: "col_Name (gc_Column (fs ! i)) = col_Name (gc_Column (fs ! j))"
    by blast
  have "nameCount (col_Name (gc_Column (fs ! j))) (take i fs) < ?vj"
    using ij names by (intro nameCount_take_mono) simp_all
  with names have less: "?vi < ?vj"
    by simp
  moreover have "0 \<le> ?vi" by (rule nameCount_nonneg)
  ultimately have "?vj > 0" by simp
  with same have "?vi = ?vj" by simp
  with less show False by simp
qed

lemma distinct_fieldsOf:
  assumes "\<forall>c \<in> set fs. CHR ''_'' \<notin> set (baseName x req namer c)"
    and "\<forall>c \<in> set fs. \<forall>d \<in> set fs.
        col_Name (gc_Column c) \<noteq> col_Name (gc_Column d) \<longrightarrow>
        baseName x req namer c \<noteq> baseName x req namer d"
  shows "distinct (map fld_Name (fieldsOf x req namer fs))"
proof -
  have "\<And>i j. i < length fs \<Longrightarrow> j < length fs \<Longrightarrow> i \<noteq> j \<Longrightarrow>
      fld_Name (fieldsOf x req namer fs ! i) \<noteq> fld_Name (fieldsOf x req namer fs ! j)"
  proof -
    fix i j assume "i < length fs" "j < length fs" "i \<noteq> j"
    then consider "i < j" | "j < i" by linarith
    then show "fld_Name (fieldsOf x req namer fs ! i) \<noteq> fld_Name (fieldsOf x req namer fs ! j)"
    proof cases
      case 1
      with assms \<open>j < length fs\<close> show ?thesis by (intro fieldsOf_names_differ)
    next
      case 2
      with assms \<open>i < length fs\<close>
      have "fld_Name (fieldsOf x req namer fs ! j) \<noteq> fld_Name (fieldsOf x req namer fs ! i)"
        by (intro fieldsOf_names_differ)
      then show ?thesis by (rule not_sym)
    qed
  qed
  then show ?thesis
    by (simp add: distinct_conv_nth)
qed


text \<open>
  Claim C5, as amended. In a struct built by \<^verbatim>\<open>ktColumnsToStruct\<close> (the argument and row
  structs of queries) the field at position \<^verbatim>\<open>k\<close> is named by the member name of its
  column, and when \<^verbatim>\<open>v > 0\<close> earlier fields of the struct come from columns with the same
  raw column name, the suffix \<^verbatim>\<open>_\<close> and \<^verbatim>\<open>v + 1\<close> is added. No two fields of such a struct
  share a name when no member name contains an underscore and columns with different raw
  names have different member names. A struct of a table has one field per column, named
  by the member name of the column, without a suffix.
\<close>

theorem field_names_suffix:
  "gs = ktColumnsToStruct x req name cols namer \<Longrightarrow>
   st_Fields gs = fieldsOf x req namer (firstOccurrences cols) \<and>
   (\<forall>k < length (firstOccurrences cols).
      fld_Name (st_Fields gs ! k) =
        (let c = firstOccurrences cols ! k;
             v = nameCount (col_Name (gc_Column c)) (take k (firstOccurrences cols))
         in if v > 0 then baseName x req namer c @ ''_'' @ fmt_d (v + 1)
            else baseName x req namer c)) \<and>
   ((\<forall>c \<in> set (firstOccurrences cols). CHR ''_'' \<notin> set (baseName x req namer c)) \<and>
    (\<forall>c \<in> set (firstOccurrences cols). \<forall>d \<in> set (firstOccurrences cols).
       col_Name (gc_Column c) \<noteq> col_Name (gc_Column d) \<longrightarrow>
       baseName x req namer c \<noteq> baseName x req namer d) \<longrightarrow>
      distinct (map fld_Name (st_Fields gs))) \<and>
   map fld_Name (st_Fields (buildDataClass x req schema table)) =
     map (\<lambda>column. memberName x (col_Name column) (req_Settings req)) (tbl_Columns table)"
proof -
  assume "gs = ktColumnsToStruct x req name cols namer"
  then have fields: "st_Fields gs = fieldsOf x req namer (firstOccurrences cols)"
    by (simp add: ktColumnsToStruct_closed_form)
  have names: "\<forall>k < length (firstOccurrences cols).
      fld_Name (st_Fields gs ! k) =
        (let c = firstOccurrences cols ! k;
             v = nameCount (col_Name (gc_Column c)) (take k (firstOccurrences cols))
         in if v > 0 then baseName x req namer c @ ''_'' @ fmt_d (v + 1)
            else baseName x req namer c)"
    by (simp add: fields fieldsOf_nth fld_Name_fieldFor Let_def)
  have unique: "(\<forall>c \<in> set (firstOccurrences cols). CHR ''_'' \<notin> set (baseName x req namer c)) \<and>
    (\<forall>c \<in> set (firstOccurrences cols). \<forall>d \<in> set (firstOccurrences cols).
       col_Name (gc_Column c) \<noteq> col_Name (gc_Column d) \<longrightarrow>
       baseName x req namer c \<noteq> baseName x req namer d) \<longrightarrow>
      distinct (map fld_Name (st_Fields gs))"
    unfolding fields using distinct_fieldsOf [of "firstOccurrences cols" x req namer] by blast
  have tables: "map fld_Name (st_Fields (buildDataClass x req schema table)) =
     map (\<lambda>column. memberName x (col_Name column) (req_Settings req)) (tbl_Columns table)"
    by (simp add: buildDataClass_def Let_def comp_def)
  from fields names unique tables show ?thesis by blast
qed

lemma ex_rowCols_first: "firstOccurrences ex_rowCols = ex_rowCols"
  by (simp add: firstOccurrences_def ex_rowCols_def)

lemma ex_rowCols_base:
  "map (baseName sample_deps (ex_req e qs) ktColumnName) ex_rowCols = [''id'', ''email'', ''id'']"
  by (simp add: ex_rowCols_def baseName_def ktColumnName_def sample_names ex_col_def ex_colOf_def)

theorem field_names_suffix_witness:
  "firstOccurrences ex_rowCols = ex_rowCols \<and>
   map (baseName sample_deps (ex_req ''postgresql'' []) ktColumnName) ex_rowCols =
     [''id'', ''email'', ''id''] \<and>
   map (\<lambda>c. col_Name (gc_Column c)) ex_rowCols = [''id'', ''email'', ''id''] \<and>
   distinct (map fld_Name (st_Fields (ktColumnsToStruct sample_deps (ex_req ''postgresql'' [])
      ''GetRow'' ex_rowCols ktColumnName))) \<and>
   map fld_Name (st_Fields (ktColumnsToStruct sample_deps (ex_req ''postgresql'' [])
      ''GetRow'' ex_rowCols ktColumnName)) = [''id'', ''email'', ''id_2'']"
proof -
  let ?G = "ktColumnsToStruct sample_deps (ex_req ''postgresql'' []) ''GetRow'' ex_rowCols
      ktColumnName"
  note t = field_names_suffix [OF refl, of sample_deps "ex_req ''postgresql'' []" "''GetRow''"
      ex_rowCols ktColumnName]
  have raw: "map (\<lambda>c. col_Name (gc_Column c)) ex_rowCols = [''id'', ''email'', ''id'']"
    by (simp add: ex_rowCols_def ex_col_def ex_colOf_def)
  have h1: "\<forall>c \<in> set (firstOccurrences ex_rowCols).
      CHR ''_'' \<notin> set (baseName sample_deps (ex_req ''postgresql'' []) ktColumnName c)"
    unfolding ex_rowCols_first
    by (simp add: ex_rowCols_def baseName_def ktColumnName_def sample_names ex_col_def
        ex_colOf_def)
  have h2: "\<forall>c \<in> set (firstOccurrences ex_rowCols). \<forall>d \<in> set (firstOccurrences ex_rowCols).
       col_Name (gc_Column c) \<noteq> col_Name (gc_Column d) \<longrightarrow>
       baseName sample_deps (ex_req ''postgresql'' []) ktColumnName c \<noteq>
       baseName sample_deps (ex_req ''postgresql'' []) ktColumnName d"
    unfolding ex_rowCols_first
    by (simp add: ex_rowCols_def baseName_def ktColumnName_def sample_names ex_col_def
        ex_colOf_def)
  from t h1 h2 have d: "distinct (map fld_Name (st_Fields ?G))"
    by blast
  have names: "map fld_Name (st_Fields ?G) = [''id'', ''email'', ''id_2'']"
    by (simp add: ktColumnsToStruct_def ktColumnsToStruct_init_def ktColumnsToStruct_step_def
        ex_rowCols_def ktColumnName_def nameSeen_get_def sample_names ex_col_def ex_colOf_def
        fmt_d_def natToDec.simps digitChar_def Let_def)
  show ?thesis
    using ex_rowCols_first ex_rowCols_base raw d names by simp
qed


lemma ex_clash_structs:
  "map (\<lambda>s. map fld_Name (st_Fields s)) (buildDataClasses sample_deps ex_clashReq) =
     [[''userId'', ''userId'']]"
  by (simp add: buildDataClasses_def buildDataClass_def ex_clashReq_def isSystemSchema_def
      sort_Slice_def sample_names ex_colOf_def)

lemma ex_clash_no_match:
  "\<not> shapeMatches sample_deps ex_clashReq s
       [ex_colOf ''links'' ''userId'' ''text'' True, ex_colOf ''links'' ''user_id'' ''uuid'' True]
   \<or> s \<notin> set (buildDataClasses sample_deps ex_clashReq)"
  by (auto simp: buildDataClasses_def buildDataClass_def ex_clashReq_def isSystemSchema_def
      sort_Slice_def shapeMatches_def sample_types upt_rec [of 0] upt_rec [of 1])

text \<open>
  The claim as it is written fails where two columns with different raw names have the
  same member name: \<^verbatim>\<open>user_id\<close> and \<^verbatim>\<open>userId\<close> both become \<^verbatim>\<open>userId\<close>, in the struct of
  the table and in the row struct of the query.
\<close>

theorem duplicate_field_names_counterexample:
  "map (\<lambda>s. map fld_Name (st_Fields s)) (buildDataClasses sample_deps ex_clashReq) =
     [[''userId'', ''userId'']] \<and>
   (case buildQueries sample_deps ex_clashReq (buildDataClasses sample_deps ex_clashReq) of
      Inl err \<Rightarrow> []
    | Inr qs \<Rightarrow>
        map (\<lambda>gq. (qv_Emit (Ret gq),
                   map_option (\<lambda>s. map fld_Name (st_Fields s)) (qv_Struct (Ret gq)))) qs) =
     [(True, Some [''userId'', ''userId''])]"
proof -
  let ?cols = "[ex_colOf ''links'' ''userId'' ''text'' True,
      ex_colOf ''links'' ''user_id'' ''uuid'' True]"
  have none: "find (\<lambda>s. shapeMatches sample_deps ex_clashReq s ?cols)
      (buildDataClasses sample_deps ex_clashReq) = None"
    using ex_clash_no_match by (auto simp: find_None_iff)
  have queries: "req_Queries ex_clashReq =
      [ex_query ''ListLinks'' '':many'' ''SELECT userId, user_id FROM links'' ?cols []]"
    by (simp add: ex_clashReq_def)
  have row: "\<And>n. map fld_Name (st_Fields (ktColumnsToStruct sample_deps ex_clashReq n
        [\<lparr>gc_id = 0, gc_Column = ex_colOf ''links'' ''userId'' ''text'' True\<rparr>,
         \<lparr>gc_id = 1, gc_Column = ex_colOf ''links'' ''user_id'' ''uuid'' True\<rparr>]
        ktColumnName)) =
      [''userId'', ''userId'']"
    by (simp add: ktColumnsToStruct_def ktColumnsToStruct_init_def ktColumnsToStruct_step_def
        ktColumnName_def nameSeen_get_def sample_names ex_colOf_def ex_clashReq_def Let_def)
  have ret: "Ret (compileQuery sample_deps ex_clashReq (buildDataClasses sample_deps ex_clashReq)
        (ex_query ''ListLinks'' '':many'' ''SELECT userId, user_id FROM links'' ?cols [])) =
      \<lparr>qv_Emit = True, qv_Name = ''results'',
       qv_Struct = Some (ktColumnsToStruct sample_deps ex_clashReq
        (strings_Title sample_deps ''ListLinks'' @ ''Row'')
        (map (\<lambda>(i, c). \<lparr>gc_id = int i, gc_Column = c\<rparr>) (enumerate 0 ?cols)) ktColumnName),
       qv_Typ = zero_ktType, qv_JDBCParamBindCount = 0\<rparr>"
    by (simp add: Ret_compileQuery queryRet_def findStruct_find none)
  show ?thesis
    by (simp add: ex_clash_structs buildQueries_eq queries sample_simps ret row)
qed

section \<open>Determinism\<close>

lemma sorted_sort_Slice: "sorted (map key (sort_Slice key xs))"
  by (simp add: sort_Slice_def)

lemma sorted_guarded_sort:
  "sorted (map key (if length xs > 0 then sort_Slice key xs else xs))"
  by (cases xs) (simp_all add: sorted_sort_Slice)

lemma sorted_buildEnums: "sorted (map enum_Name (buildEnums x req))"
  unfolding buildEnums_def Let_def by (rule sorted_guarded_sort)

lemma sorted_buildDataClasses: "sorted (map st_Name (buildDataClasses x req))"
  unfolding buildDataClasses_def Let_def by (rule sorted_guarded_sort)

lemma sorted_buildQueries:
  "buildQueries x req structs = Inr qs \<Longrightarrow> sorted (map MethodName qs)"
  by (auto simp: buildQueries_def sorted_sort_Slice split: sum.splits)

lemma Generate_output_names:
  assumes "Generate_output x req = Inr out"
  shows "map fst out = [''Models.kt'', ''Queries.kt'', ''QueriesImpl.kt'']"
proof -
  have kt: "suffix ''.kt'' ''Models.kt''" "suffix ''.kt'' ''Queries.kt''"
    "suffix ''.kt'' ''QueriesImpl.kt''"
    by (simp_all add: suffix_def)
  from assms show ?thesis
    by (auto simp: Generate_output_def Let_def execute_def kt split: sum.splits)
qed

text \<open>
  Claim C6, as amended. The descriptor lists are functions of the request: the enum list
  and the struct list are sorted by name, the query list is sorted by method name.
  \<^verbatim>\<open>Generate\<close> always has a result, and any two results for one request are the same
  error, or responses with the same files (the three names \<^verbatim>\<open>Models.kt\<close>, \<^verbatim>\<open>Queries.kt\<close>,
  \<^verbatim>\<open>QueriesImpl.kt\<close>, each with the same contents); the order of the files in the response
  is not fixed.
\<close>

theorem generation_is_deterministic_up_to_file_order:
  "sorted (map enum_Name (buildEnums x req)) \<and>
   sorted (map st_Name (buildDataClasses x req)) \<and>
   (buildQueries x req structs = Inr qs \<longrightarrow> sorted (map MethodName qs)) \<and>
   (\<exists>r. Generate x req r) \<and>
   (Generate x req r1 \<and> Generate x req r2 \<longrightarrow>
      (case r1 of
         Inl e1 \<Rightarrow> r2 = Inl e1
       | Inr files1 \<Rightarrow>
           (case r2 of
              Inl e2 \<Rightarrow> False
            | Inr files2 \<Rightarrow>
                mset files1 = mset files2 \<and>
                mset (map file_Name files1) =
                  mset [''Models.kt'', ''Queries.kt'', ''QueriesImpl.kt''])))"
proof (intro conjI impI)
  show "sorted (map enum_Name (buildEnums x req))" by (rule sorted_buildEnums)
  show "sorted (map st_Name (buildDataClasses x req))" by (rule sorted_buildDataClasses)
  show "buildQueries x req structs = Inr qs \<Longrightarrow> sorted (map MethodName qs)"
    by (rule sorted_buildQueries)
  show "\<exists>r. Generate x req r"
  proof (cases "Generate_output x req")
    case (Inl err)
    then have "Generate x req (Inl err)" by (simp add: Generate_def)
    then show ?thesis ..
  next
    case (Inr out)
    then have "Generate x req
        (Inr (map (\<lambda>(filename, code). \<lparr>file_Name = filename, file_Contents = code\<rparr>) out))"
      by (simp add: Generate_def)
    then show ?thesis ..
  qed
next
  assume a: "Generate x req r1 \<and> Generate x req r2"
  show "case r1 of
         Inl e1 \<Rightarrow> r2 = Inl e1
       | Inr files1 \<Rightarrow>
           (case r2 of
              Inl e2 \<Rightarrow> False
            | Inr files2 \<Rightarrow>
                mset files1 = mset files2 \<and>
                mset (map file_Name files1) =
                  mset [''Models.kt'', ''Queries.kt'', ''QueriesImpl.kt''])"
  proof (cases "Generate_output x req")
    case (Inl err)
    with a show ?thesis by (simp add: Generate_def)
  next
    case (Inr out)
    let ?files = "map (\<lambda>(filename, code). \<lparr>file_Name = filename, file_Contents = code\<rparr>) out"
    have names: "map file_Name ?files = [''Models.kt'', ''Queries.kt'', ''QueriesImpl.kt'']"
      using Generate_output_names [OF Inr] by (simp add: comp_def case_prod_unfold)
    from a Inr obtain f1 f2 where r: "r1 = Inr f1" "r2 = Inr f2"
      and m: "mset f1 = mset ?files" "mset f2 = mset ?files"
      by (auto simp: Generate_def split: sum.splits)
    from m(1) have "mset (map file_Name f1) = mset (map file_Name ?files)"
      by (metis mset_map)
    with names m r show ?thesis by simp
  qed
qed

theorem generation_is_deterministic_up_to_file_order_witness:
  "buildQueries sample_deps (ex_req ''postgresql'' [ex_exec, ex_getEmail]) [] =
     Inr [compileQuery sample_deps (ex_req ''postgresql'' [ex_exec, ex_getEmail]) [] ex_getEmail,
          compileQuery sample_deps (ex_req ''postgresql'' [ex_exec, ex_getEmail]) [] ex_exec] \<and>
   sorted (map MethodName
     [compileQuery sample_deps (ex_req ''postgresql'' [ex_exec, ex_getEmail]) [] ex_getEmail,
      compileQuery sample_deps (ex_req ''postgresql'' [ex_exec, ex_getEmail]) [] ex_exec]) \<and>
   Generate sample_deps (ex_req ''postgresql'' [ex_exec, ex_getEmail]) (Inr ex_files) \<and>
   Generate sample_deps (ex_req ''postgresql'' [ex_exec, ex_getEmail]) (Inr (rev ex_files)) \<and>
   mset ex_files = mset (rev ex_files)"
proof -
  let ?req = "ex_req ''postgresql'' [ex_exec, ex_getEmail]"
  have names: "MethodName (compileQuery sample_deps ?req [] ex_exec) = ''touch''"
    "MethodName (compileQuery sample_deps ?req [] ex_getEmail) = ''getEmail''"
    by (simp_all add: compileQuery_def Let_def ex_exec_def ex_getEmail_def sample_simps
        sample_LowerTitle_def toLowerByte_def)
  have build: "buildQueries sample_deps ?req [] =
     Inr [compileQuery sample_deps ?req [] ex_getEmail, compileQuery sample_deps ?req [] ex_exec]"
    by (simp add: buildQueries_eq sample_simps sort_Slice_def names)
       (simp add: ex_exec_def ex_getEmail_def)
  have ok: "\<exists>qs. buildQueries sample_deps ?req (buildDataClasses sample_deps ?req) = Inr qs"
    by (simp add: buildQueries_eq sample_simps) (simp add: ex_exec_def ex_getEmail_def)
  then obtain qs where "buildQueries sample_deps ?req (buildDataClasses sample_deps ?req) = Inr qs"
    by blast
  then have out: "Generate_output sample_deps ?req =
     Inr [(''Models.kt'', ''models Models.kt'' @ [CHR 0x0A]),
          (''Queries.kt'', ''interface Queries.kt'' @ [CHR 0x0A]),
          (''QueriesImpl.kt'', ''sql QueriesImpl.kt'' @ [CHR 0x0A])]"
    by (rule ex_Generate_output)
  have g1: "Generate sample_deps ?req (Inr ex_files)"
    by (simp add: Generate_def out ex_files_def)
  have g2: "Generate sample_deps ?req (Inr (rev ex_files))"
    by (simp add: Generate_def out ex_files_def)
  show ?thesis
    using generation_is_deterministic_up_to_file_order [of sample_deps ?req "[]"
        "[compileQuery sample_deps ?req [] ex_getEmail, compileQuery sample_deps ?req [] ex_exec]"
        "Inr ex_files" "Inr (rev ex_files)"]
      build g1 g2
    by simp
qed

text \<open>
  The claim as it is written fails for the order of the output files: the response is
  filled by ranging over a Go map, so the same request has responses that list the same
  files in different orders.
\<close>

theorem file_order_counterexample:
  "Generate sample_deps (ex_req ''postgresql'' []) (Inr ex_files) \<and>
   Generate sample_deps (ex_req ''postgresql'' []) (Inr (rev ex_files)) \<and>
   Inr ex_files \<noteq> (Inr (rev ex_files) :: string + plugin_File list)"
proof -
  have "buildQueries sample_deps (ex_req ''postgresql'' [])
      (buildDataClasses sample_deps (ex_req ''postgresql'' [])) = Inr []"
    by (simp add: buildQueries_eq sort_Slice_def)
  then have out: "Generate_output sample_deps (ex_req ''postgresql'' []) =
     Inr [(''Models.kt'', ''models Models.kt'' @ [CHR 0x0A]),
          (''Queries.kt'', ''interface Queries.kt'' @ [CHR 0x0A]),
          (''QueriesImpl.kt'', ''sql QueriesImpl.kt'' @ [CHR 0x0A])]"
    by (rule ex_Generate_output)
  show ?thesis
    by (simp add: Generate_def out ex_files_def)
qed

end
